theory Spec2Isabelle
  imports Complex_Main
begin

section \<open>JavaScript numbers\<close>

text \<open>
  A JavaScript number is an IEEE 754 double: \<open>Num r\<close> is the finite number of value
  \<open>r\<close>, beside the three special values. The sign of zero is not modelled.
\<close>

datatype jsnum = Num real | NaN | PosInf | NegInf

text \<open>
  The arithmetic operations give the double nearest to the exact result, a tie going
  to the even significand. \<open>rne\<close> rounds a real to the nearest integer in that way;
  \<open>ulp_exp x\<close> is the exponent of the unit in the last place of the doubles around
  \<open>x\<close>: the significand has 53 bits, and below \<open>2\<^sup>-\<^sup>1\<^sup>0\<^sup>2\<^sup>2\<close> the subnormal doubles are
  the multiples of \<open>2\<^sup>-\<^sup>1\<^sup>0\<^sup>7\<^sup>4\<close>. \<open>fl64 x\<close> is the rounded value, and \<open>to_double x\<close> the
  number it gives: an infinity when the rounded value leaves the range of the
  doubles.
\<close>

definition rne :: "real \<Rightarrow> int" where
  "rne r =
     (let f = \<lfloor>r\<rfloor>; d = r - of_int f
      in if d < 1 / 2 then f
         else if 1 / 2 < d then f + 1
         else if even f then f else f + 1)"

definition ulp_exp :: "real \<Rightarrow> int" where
  "ulp_exp x = max \<lfloor>log 2 \<bar>x\<bar>\<rfloor> (- 1022) - 52"

definition fl64 :: "real \<Rightarrow> real" where
  "fl64 x = (if x = 0 then 0 else of_int (rne (x / 2 powi ulp_exp x)) * 2 powi ulp_exp x)"

definition to_double :: "real \<Rightarrow> jsnum" where
  "to_double x =
     (let y = fl64 x
      in if 2 ^ 1024 \<le> y then PosInf else if y \<le> - (2 ^ 1024) then NegInf else Num y)"

text \<open>The reals that are the value of a finite double.\<close>

definition is_double :: "real \<Rightarrow> bool" where
  "is_double x = (to_double x = Num x)"

fun js_neg :: "jsnum \<Rightarrow> jsnum" where
  "js_neg (Num a) = Num (- a)"
| "js_neg NaN = NaN"
| "js_neg PosInf = NegInf"
| "js_neg NegInf = PosInf"

fun js_add :: "jsnum \<Rightarrow> jsnum \<Rightarrow> jsnum" where
  "js_add (Num a) (Num b) = to_double (a + b)"
| "js_add NaN _ = NaN"
| "js_add _ NaN = NaN"
| "js_add PosInf NegInf = NaN"
| "js_add NegInf PosInf = NaN"
| "js_add PosInf _ = PosInf"
| "js_add NegInf _ = NegInf"
| "js_add _ PosInf = PosInf"
| "js_add _ NegInf = NegInf"

definition js_sub :: "jsnum \<Rightarrow> jsnum \<Rightarrow> jsnum" where
  "js_sub a b = js_add a (js_neg b)"

text \<open>The sign of a number: \<open>1\<close>, \<open>0\<close> or \<open>-1\<close>; \<open>NaN\<close> has none.\<close>

fun js_sign :: "jsnum \<Rightarrow> int option" where
  "js_sign (Num a) = Some (if a > 0 then 1 else if a < 0 then -1 else 0)"
| "js_sign NaN = None"
| "js_sign PosInf = Some 1"
| "js_sign NegInf = Some (-1)"

definition inf_of_sign :: "int \<Rightarrow> jsnum" where
  "inf_of_sign s = (if s > 0 then PosInf else if s < 0 then NegInf else NaN)"

fun js_mul :: "jsnum \<Rightarrow> jsnum \<Rightarrow> jsnum" where
  "js_mul (Num a) (Num b) = to_double (a * b)"
| "js_mul a b =
     (case (js_sign a, js_sign b) of
        (Some s, Some t) \<Rightarrow> inf_of_sign (s * t)
      | _ \<Rightarrow> NaN)"

text \<open>
  Division: a finite number divided by zero is an infinity of the dividend's sign,
  and \<open>0 / 0\<close> is \<open>NaN\<close>; HOL's \<open>x / 0 = 0\<close> is never used.
\<close>

fun js_div :: "jsnum \<Rightarrow> jsnum \<Rightarrow> jsnum" where
  "js_div (Num a) (Num b) =
     (if b = 0 then (if a > 0 then PosInf else if a < 0 then NegInf else NaN)
      else to_double (a / b))"
| "js_div NaN _ = NaN"
| "js_div _ NaN = NaN"
| "js_div (Num a) _ = Num 0"
| "js_div PosInf (Num b) = (if b < 0 then NegInf else PosInf)"
| "js_div NegInf (Num b) = (if b < 0 then PosInf else NegInf)"
| "js_div _ _ = NaN"

fun js_abs :: "jsnum \<Rightarrow> jsnum" where
  "js_abs (Num a) = Num \<bar>a\<bar>"
| "js_abs NaN = NaN"
| "js_abs _ = PosInf"

text \<open>\<open>a > b\<close>: false as soon as one side is \<open>NaN\<close>.\<close>

fun js_gt :: "jsnum \<Rightarrow> jsnum \<Rightarrow> bool" where
  "js_gt (Num a) (Num b) = (a > b)"
| "js_gt NaN _ = False"
| "js_gt _ NaN = False"
| "js_gt PosInf b = (b \<noteq> PosInf)"
| "js_gt NegInf _ = False"
| "js_gt (Num a) b = (b = NegInf)"

text \<open>\<open>c === 0\<close>.\<close>

definition js_is_zero :: "jsnum \<Rightarrow> bool" where
  "js_is_zero c = (c = Num 0)"

text \<open>\<open>x || 0\<close> on a number: \<open>NaN\<close> and \<open>0\<close> are falsy.\<close>

definition js_or_zero :: "jsnum \<Rightarrow> jsnum" where
  "js_or_zero x = (if x = NaN \<or> x = Num 0 then Num 0 else x)"

text \<open>\<open>Math.round\<close> rounds to the nearest integer, a half towards \<open>+\<infinity>\<close>.\<close>

fun Math_round :: "jsnum \<Rightarrow> jsnum" where
  "Math_round (Num a) = Num (of_int \<lfloor>a + 1 / 2\<rfloor>)"
| "Math_round x = x"

fun Math_min :: "jsnum \<Rightarrow> jsnum \<Rightarrow> jsnum" where
  "Math_min (Num a) (Num b) = Num (min a b)"
| "Math_min NaN _ = NaN"
| "Math_min _ NaN = NaN"
| "Math_min NegInf _ = NegInf"
| "Math_min _ NegInf = NegInf"
| "Math_min PosInf b = b"
| "Math_min a PosInf = a"

fun Math_max :: "jsnum \<Rightarrow> jsnum \<Rightarrow> jsnum" where
  "Math_max (Num a) (Num b) = Num (max a b)"
| "Math_max NaN _ = NaN"
| "Math_max _ NaN = NaN"
| "Math_max PosInf _ = PosInf"
| "Math_max _ PosInf = PosInf"
| "Math_max NegInf b = b"
| "Math_max a NegInf = a"

section \<open>JavaScript strings\<close>

text \<open>
  A JavaScript string is a sequence of UTF-16 code units; a code unit is modelled by
  its number. \<open>str\<close> reads an ASCII literal.
\<close>

type_synonym codeunit = nat
type_synonym jsstring = "codeunit list"

definition str :: "string \<Rightarrow> jsstring" where
  "str s = map of_char s"

text \<open>
  The white space of \<open>String.prototype.trim\<close> and of the regular expression class
  \<open>\s\<close>: the WhiteSpace and LineTerminator code points.
\<close>

definition is_ws :: "codeunit \<Rightarrow> bool" where
  "is_ws c = (c = 9 \<or> c = 10 \<or> c = 11 \<or> c = 12 \<or> c = 13 \<or> c = 32 \<or> c = 160
     \<or> c = 5760 \<or> (8192 \<le> c \<and> c \<le> 8202) \<or> c = 8232 \<or> c = 8233 \<or> c = 8239
     \<or> c = 8287 \<or> c = 12288 \<or> c = 65279)"

definition trim :: "jsstring \<Rightarrow> jsstring" where
  "trim s = rev (dropWhile is_ws (rev (dropWhile is_ws s)))"

text \<open>
  \<open>toLowerCase\<close> on the ASCII letters; the case mappings of code units outside
  ASCII are left out. The code searches the result for ASCII words; where it
  compares anchor names, the lower-casing is a parameter of the search.
\<close>

definition lower_unit :: "codeunit \<Rightarrow> codeunit" where
  "lower_unit c = (if 65 \<le> c \<and> c \<le> 90 then c + 32 else c)"

definition toLowerCase :: "jsstring \<Rightarrow> jsstring" where
  "toLowerCase s = map lower_unit s"

fun startsWith :: "jsstring \<Rightarrow> jsstring \<Rightarrow> bool" where
  "startsWith s [] = True"
| "startsWith [] (c # t) = False"
| "startsWith (x # s) (c # t) = (x = c \<and> startsWith s t)"

text \<open>\<open>s.includes(t)\<close>: \<open>t\<close> occurs in \<open>s\<close> as a contiguous substring.\<close>

fun str_includes :: "jsstring \<Rightarrow> jsstring \<Rightarrow> bool" where
  "str_includes [] t = (t = [])"
| "str_includes (x # s) t = (startsWith (x # s) t \<or> str_includes s t)"

text \<open>\<open>indexOf\<close> and \<open>lastIndexOf\<close> of one code unit, \<open>-1\<close> when it is absent.\<close>

fun indexOf :: "jsstring \<Rightarrow> codeunit \<Rightarrow> int" where
  "indexOf [] c = -1"
| "indexOf (x # s) c =
     (if x = c then 0 else (let k = indexOf s c in if k = -1 then -1 else k + 1))"

fun lastIndexOf :: "jsstring \<Rightarrow> codeunit \<Rightarrow> int" where
  "lastIndexOf [] c = -1"
| "lastIndexOf (x # s) c =
     (let k = lastIndexOf s c in
      if k = -1 then (if x = c then 0 else -1) else k + 1)"

text \<open>\<open>s.replace(c, r)\<close> with a string pattern replaces the first occurrence only.\<close>

fun replace_first :: "codeunit \<Rightarrow> jsstring \<Rightarrow> jsstring \<Rightarrow> jsstring" where
  "replace_first c r [] = []"
| "replace_first c r (x # s) = (if x = c then r @ s else x # replace_first c r s)"

text \<open>\<open>s.replace(/c/g, '')\<close> removes every occurrence.\<close>

definition remove_all :: "codeunit \<Rightarrow> jsstring \<Rightarrow> jsstring" where
  "remove_all c s = filter (\<lambda>x. x \<noteq> c) s"

section \<open>Price Normalizer: \<open>cleanPrice\<close>\<close>

definition is_digit :: "codeunit \<Rightarrow> bool" where
  "is_digit c = (48 \<le> c \<and> c \<le> 57)"

text \<open>The class \<open>[\d,.]\<close>.\<close>

definition is_numchar :: "codeunit \<Rightarrow> bool" where
  "is_numchar c = (is_digit c \<or> c = 44 \<or> c = 46)"

text \<open>
  The currency anchor \<open>([\$\<euro>\<pounds>\<yen>]|USD|EUR|GBP|CAD|AUD)\<close> under the flag \<open>i\<close>, matched
  at the head of the string; the result is the text after it. Without the flag
  \<open>u\<close> only the ASCII letters fold case.
\<close>

definition currency_at :: "jsstring \<Rightarrow> jsstring option" where
  "currency_at s =
     (case s of
        [] \<Rightarrow> None
      | c # r \<Rightarrow>
          if c = 36 \<or> c = 8364 \<or> c = 163 \<or> c = 165 then Some r
          else if length s \<ge> 3 \<and> toLowerCase (take 3 s)
                 \<in> set [str ''usd'', str ''eur'', str ''gbp'', str ''cad'', str ''aud'']
          then Some (drop 3 s) else None)"

text \<open>\<open>\s?\<close> followed by the rest of a pattern \<open>k\<close>: greedy, with backtracking.\<close>

definition opt_ws_then :: "(jsstring \<Rightarrow> 'a option) \<Rightarrow> jsstring \<Rightarrow> 'a option" where
  "opt_ws_then k s =
     (case s of
        [] \<Rightarrow> k s
      | c # r \<Rightarrow>
          if is_ws c then (case k r of Some g \<Rightarrow> Some g | None \<Rightarrow> k s) else k s)"

text \<open>
  \<open>([\d,.]+\d)\<close> followed by the rest of a pattern \<open>k\<close>, at the head of \<open>s\<close>: the
  group of \<open>n\<close> code units is tried for \<open>n\<close> from the length of the longest run of
  \<open>[\d,.]\<close> downwards; it needs two code units at least and ends in a digit.
\<close>

fun numeral_try :: "nat \<Rightarrow> (jsstring \<Rightarrow> bool) \<Rightarrow> jsstring \<Rightarrow> jsstring option" where
  "numeral_try 0 k s = None"
| "numeral_try (Suc n) k s =
     (if n \<ge> 1 \<and> is_digit (s ! n) \<and> k (drop (Suc n) s) then Some (take (Suc n) s)
      else numeral_try n k s)"

definition numeral_then :: "(jsstring \<Rightarrow> bool) \<Rightarrow> jsstring \<Rightarrow> jsstring option" where
  "numeral_then k s = numeral_try (length (takeWhile is_numchar s)) k s"

text \<open>The two alternatives of the pattern, each returning its numeral group.\<close>

definition alt_currency_first :: "jsstring \<Rightarrow> jsstring option" where
  "alt_currency_first s =
     (case currency_at s of
        None \<Rightarrow> None
      | Some r \<Rightarrow> opt_ws_then (numeral_then (\<lambda>_. True)) r)"

definition alt_currency_last :: "jsstring \<Rightarrow> jsstring option" where
  "alt_currency_last s =
     numeral_then (\<lambda>r. opt_ws_then currency_at r \<noteq> None) s"

text \<open>
  \<open>val.match(...)\<close>: the leftmost match, the first alternative before the second at
  each position. The result is \<open>priceMatch[2] || priceMatch[3]\<close>.
\<close>

fun price_match :: "jsstring \<Rightarrow> jsstring option" where
  "price_match [] = None"
| "price_match (c # s) =
     (case alt_currency_first (c # s) of
        Some g \<Rightarrow> Some g
      | None \<Rightarrow>
          (case alt_currency_last (c # s) of
             Some g \<Rightarrow> Some g
           | None \<Rightarrow> price_match s))"

definition digits_val :: "jsstring \<Rightarrow> nat" where
  "digits_val ds = foldl (\<lambda>a c. 10 * a + (c - 48)) 0 ds"

text \<open>
  \<open>parseFloat\<close> on the strings \<open>cleanPrice\<close> gives it, which hold digits, commas and
  dots only: the longest prefix \<open>digits [. digits]\<close> with one digit at least. The
  number is given by the value of its numeral, which stands for the double nearest
  to it: the result of \<open>cleanPrice\<close> enters no arithmetic.
\<close>

definition parseFloat :: "jsstring \<Rightarrow> jsnum" where
  "parseFloat s =
     (let ip = takeWhile is_digit s;
          r = drop (length ip) s;
          fp = (case r of [] \<Rightarrow> [] | c # t \<Rightarrow> if c = 46 then takeWhile is_digit t else [])
      in if ip = [] \<and> fp = [] then NaN
         else Num (real (digits_val ip) + real (digits_val fp) / 10 ^ length fp))"

text \<open>The separator stage of \<open>cleanPrice\<close>: from \<open>raw\<close> to \<open>cleaned\<close>.\<close>

definition clean_separators :: "jsstring \<Rightarrow> jsstring" where
  "clean_separators raw =
     (let lastComma = lastIndexOf raw 44;
          lastDot = lastIndexOf raw 46
      in if lastComma \<noteq> -1 \<and> lastDot \<noteq> -1 then
           (if lastComma > lastDot then replace_first 44 [46] (remove_all 46 raw)
            else remove_all 44 raw)
         else if lastComma \<noteq> -1 then
           (if int (length raw) - 1 - lastComma = 2 then replace_first 44 [46] raw
            else replace_first 44 [] raw)
         else if lastDot \<noteq> -1 then
           (if int (length raw) - 1 - lastDot = 2 then raw else remove_all 46 raw)
         else raw)"

definition cleanPrice :: "jsstring option \<Rightarrow> jsnum" where
  "cleanPrice v =
     (case v of
        None \<Rightarrow> NaN
      | Some val \<Rightarrow>
          if val = [] \<or> trim val = [] then NaN
          else
            let lower = toLowerCase val in
            if str_includes lower (str ''free'') \<or> str_includes lower (str ''gratis'')
            then Num 0
            else
              let raw = (case price_match val of
                           Some g \<Rightarrow> filter is_numchar g
                         | None \<Rightarrow> filter is_numchar (takeWhile (\<lambda>c. \<not> is_ws c) (trim val)))
              in if \<not> list_ex is_digit raw then NaN
                 else parseFloat (clean_separators raw))"

section \<open>Response Recovery Parser\<close>

subsection \<open>\<open>JSON.parse\<close>\<close>

text \<open>
  \<open>JSON.parse\<close> is a built-in of the platform. It is modelled by a recursive descent
  parser of the JSON grammar (ECMA-404): white space, the three literals, numbers,
  strings with their escapes, arrays and objects. A number is the double nearest to
  the value of its numeral; the members of an object are kept in the order of the
  text. The parser is driven by fuel; \<open>JSON_parse\<close> starts it with more fuel than it
  can use on its input.
\<close>

datatype jsval =
    JNull
  | JBool bool
  | JNumber jsnum
  | JString jsstring
  | JArray "jsval list"
  | JObject "(jsstring \<times> jsval) list"

datatype 'a parse_result = Parsed 'a jsstring | SyntaxError | OutOfFuel

definition is_json_ws :: "codeunit \<Rightarrow> bool" where
  "is_json_ws c = (c = 32 \<or> c = 9 \<or> c = 10 \<or> c = 13)"

definition skip_ws :: "jsstring \<Rightarrow> jsstring" where
  "skip_ws s = dropWhile is_json_ws s"

definition hex_val :: "codeunit \<Rightarrow> nat option" where
  "hex_val c =
     (if 48 \<le> c \<and> c \<le> 57 then Some (c - 48)
      else if 97 \<le> c \<and> c \<le> 102 then Some (c - 87)
      else if 65 \<le> c \<and> c \<le> 70 then Some (c - 55)
      else None)"

definition unescape :: "codeunit \<Rightarrow> codeunit option" where
  "unescape c =
     (if c = 34 \<or> c = 92 \<or> c = 47 then Some c
      else if c = 98 then Some 8
      else if c = 102 then Some 12
      else if c = 110 then Some 10
      else if c = 114 then Some 13
      else if c = 116 then Some 9
      else None)"

datatype strmode = SNormal | SEscape | SHex nat nat

text \<open>The body of a string literal, after its opening quote.\<close>

fun string_body :: "strmode \<Rightarrow> jsstring \<Rightarrow> jsstring \<Rightarrow> jsstring parse_result" where
  "string_body m acc [] = SyntaxError"
| "string_body SNormal acc (c # s) =
     (if c = 34 then Parsed (rev acc) s
      else if c < 32 then SyntaxError
      else if c = 92 then string_body SEscape acc s
      else string_body SNormal (c # acc) s)"
| "string_body SEscape acc (c # s) =
     (if c = 117 then string_body (SHex 4 0) acc s
      else (case unescape c of
              None \<Rightarrow> SyntaxError
            | Some x \<Rightarrow> string_body SNormal (x # acc) s))"
| "string_body (SHex k v) acc (c # s) =
     (case hex_val c of
        None \<Rightarrow> SyntaxError
      | Some h \<Rightarrow>
          if k \<le> 1 then string_body SNormal ((16 * v + h) # acc) s
          else string_body (SHex (k - 1) (16 * v + h)) acc s)"

text \<open>
  A number: \<open>-? (0 | [1-9][0-9]*) (. [0-9]+)? ([eE] [+-]? [0-9]+)?\<close>.
\<close>

definition parse_number :: "jsstring \<Rightarrow> jsval parse_result" where
  "parse_number s =
     (let neg = (s \<noteq> [] \<and> hd s = 45);
          s1 = (if neg then tl s else s);
          ds = takeWhile is_digit s1;
          ip = (if ds \<noteq> [] \<and> hd ds = 48 then [48] else ds);
          s2 = drop (length ip) s1;
          hasfrac = (s2 \<noteq> [] \<and> hd s2 = 46);
          fp = (if hasfrac then takeWhile is_digit (tl s2) else []);
          s3 = (if hasfrac then drop (length fp) (tl s2) else s2);
          hasexp = (s3 \<noteq> [] \<and> (hd s3 = 101 \<or> hd s3 = 69));
          s4 = (if hasexp then tl s3 else s3);
          eneg = (hasexp \<and> s4 \<noteq> [] \<and> hd s4 = 45);
          s5 = (if hasexp \<and> s4 \<noteq> [] \<and> (hd s4 = 45 \<or> hd s4 = 43) then tl s4 else s4);
          ep = (if hasexp then takeWhile is_digit s5 else []);
          s6 = drop (length ep) s5;
          m = real (digits_val ip) + real (digits_val fp) / 10 ^ length fp;
          e = (if eneg then m / 10 ^ digits_val ep else m * 10 ^ digits_val ep)
      in if ip = [] \<or> (hasfrac \<and> fp = []) \<or> (hasexp \<and> ep = []) then SyntaxError
         else Parsed (JNumber (to_double (if neg then - e else e))) s6)"

definition parse_literal :: "jsstring \<Rightarrow> jsval parse_result" where
  "parse_literal s =
     (if startsWith s (str ''true'') then Parsed (JBool True) (drop 4 s)
      else if startsWith s (str ''false'') then Parsed (JBool False) (drop 5 s)
      else if startsWith s (str ''null'') then Parsed JNull (drop 4 s)
      else SyntaxError)"

text \<open>
  A value at the head of the text (leading white space already skipped), the
  elements of an array after its \<open>[\<close>, and the members of an object after its \<open>{\<close>.
\<close>

fun parse_value :: "nat \<Rightarrow> jsstring \<Rightarrow> jsval parse_result"
  and parse_elements :: "nat \<Rightarrow> jsval list \<Rightarrow> jsstring \<Rightarrow> jsval parse_result"
  and parse_members :: "nat \<Rightarrow> (jsstring \<times> jsval) list \<Rightarrow> jsstring \<Rightarrow> jsval parse_result"
where
  "parse_value 0 s = OutOfFuel"
| "parse_value (Suc n) [] = SyntaxError"
| "parse_value (Suc n) (c # r) =
     (if c = 123 then
        (case skip_ws r of
           [] \<Rightarrow> SyntaxError
         | d # t \<Rightarrow> if d = 125 then Parsed (JObject []) t else parse_members n [] (d # t))
      else if c = 91 then
        (case skip_ws r of
           [] \<Rightarrow> SyntaxError
         | d # t \<Rightarrow> if d = 93 then Parsed (JArray []) t else parse_elements n [] (d # t))
      else if c = 34 then
        (case string_body SNormal [] r of
           Parsed x t \<Rightarrow> Parsed (JString x) t
         | SyntaxError \<Rightarrow> SyntaxError
         | OutOfFuel \<Rightarrow> OutOfFuel)
      else if c = 45 \<or> is_digit c then parse_number (c # r)
      else parse_literal (c # r))"
| "parse_elements 0 acc s = OutOfFuel"
| "parse_elements (Suc n) acc s =
     (case parse_value n s of
        SyntaxError \<Rightarrow> SyntaxError
      | OutOfFuel \<Rightarrow> OutOfFuel
      | Parsed v r \<Rightarrow>
          (case skip_ws r of
             [] \<Rightarrow> SyntaxError
           | d # t \<Rightarrow>
               if d = 44 then parse_elements n (v # acc) (skip_ws t)
               else if d = 93 then Parsed (JArray (rev (v # acc))) t
               else SyntaxError))"
| "parse_members 0 acc s = OutOfFuel"
| "parse_members (Suc n) acc [] = SyntaxError"
| "parse_members (Suc n) acc (q # r) =
     (if q \<noteq> 34 then SyntaxError
      else
        (case string_body SNormal [] r of
           SyntaxError \<Rightarrow> SyntaxError
         | OutOfFuel \<Rightarrow> OutOfFuel
         | Parsed key r1 \<Rightarrow>
             (case skip_ws r1 of
                [] \<Rightarrow> SyntaxError
              | d # r2 \<Rightarrow>
                  if d \<noteq> 58 then SyntaxError
                  else
                    (case parse_value n (skip_ws r2) of
                       SyntaxError \<Rightarrow> SyntaxError
                     | OutOfFuel \<Rightarrow> OutOfFuel
                     | Parsed v r3 \<Rightarrow>
                         (case skip_ws r3 of
                            [] \<Rightarrow> SyntaxError
                          | e # t \<Rightarrow>
                              if e = 44 then parse_members n ((key, v) # acc) (skip_ws t)
                              else if e = 125 then Parsed (JObject (rev ((key, v) # acc))) t
                              else SyntaxError)))))"

text \<open>
  \<open>JSON.parse(text)\<close>: one value, white space around it and nothing else. \<open>None\<close>
  stands for the \<open>SyntaxError\<close> it throws.
\<close>

definition JSON_parse :: "jsstring \<Rightarrow> jsval option" where
  "JSON_parse s =
     (case parse_value (2 * length s + 2) (skip_ws s) of
        Parsed v r \<Rightarrow> if skip_ws r = [] then Some v else None
      | SyntaxError \<Rightarrow> None
      | OutOfFuel \<Rightarrow> None)"

subsection \<open>\<open>stripMarkdown\<close> and \<open>tryParsePartialJSON\<close>\<close>

text \<open>\<open>s.substring(a, b)\<close> for \<open>0 \<le> a \<le> b\<close>.\<close>

definition substring :: "jsstring \<Rightarrow> nat \<Rightarrow> nat \<Rightarrow> jsstring" where
  "substring s a b = take (b - a) (drop a s)"

text \<open>
  \<open>text.match(/\{[\s\S]*\}/)\<close>: the match runs from the first \<open>{\<close> to the last \<open>}\<close>
  of the text, and exists when that \<open>}\<close> comes after the \<open>{\<close>.
\<close>

definition stripMarkdown :: "jsstring \<Rightarrow> jsstring" where
  "stripMarkdown s =
     (let i = indexOf s 123; j = lastIndexOf s 125
      in if i \<noteq> -1 \<and> i < j then substring s (nat i) (nat j + 1) else s)"

definition count_unit :: "codeunit \<Rightarrow> jsstring \<Rightarrow> int" where
  "count_unit c s = int (length (filter (\<lambda>x. x = c) s))"

text \<open>
  The first lines of the \<open>catch\<close> block of \<open>tryParsePartialJSON\<close>: the text trimmed
  and cut to start at its first \<open>{\<close>.
\<close>

definition from_first_brace :: "jsstring \<Rightarrow> jsstring" where
  "from_first_brace s =
     (let t = trim s
      in if \<not> startsWith t [123] then
           (let firstBrace = indexOf t 123
            in if firstBrace \<noteq> -1 then drop (nat firstBrace) t else t)
         else t)"

text \<open>
  The text the \<open>catch\<close> block parses first: closed with \<open>openBraces\<close> braces under the
  guard of the source.
\<close>

definition recovered_text :: "jsstring \<Rightarrow> jsstring" where
  "recovered_text s =
     (let recovered = from_first_brace s;
          openBraces = count_unit 123 recovered - count_unit 125 recovered
      in if lastIndexOf recovered 125 < int (length recovered) - 1 \<and> openBraces > 0
         then recovered @ replicate (nat openBraces) 125
         else recovered)"

text \<open>
  \<open>tryParsePartialJSON\<close>, with the parser it calls as the parameter \<open>parse\<close>; \<open>None\<close>
  is the exception leaving the function.
\<close>

definition tryParsePartialJSON_with :: "(jsstring \<Rightarrow> 'a option) \<Rightarrow> jsstring \<Rightarrow> 'a option" where
  "tryParsePartialJSON_with parse s =
     (case parse s of
        Some v \<Rightarrow> Some v
      | None \<Rightarrow>
          (let recovered = recovered_text s
           in case parse recovered of
                Some v \<Rightarrow> Some v
              | None \<Rightarrow>
                  (let lastBrace = lastIndexOf recovered 125
                   in if lastBrace > 0 then parse (substring recovered 0 (nat lastBrace + 1))
                      else None)))"

definition tryParsePartialJSON :: "jsstring \<Rightarrow> jsval option" where
  "tryParsePartialJSON s = tryParsePartialJSON_with JSON_parse s"

text \<open>
  The recovery as the specification words it: strip, parse strictly; append the
  excess of closing braces and parse; cut at the last closing brace and parse.
\<close>

definition spec_recover :: "(jsstring \<Rightarrow> 'a option) \<Rightarrow> jsstring \<Rightarrow> 'a option" where
  "spec_recover parse raw =
     (let s = stripMarkdown raw
      in case parse s of
           Some v \<Rightarrow> Some v
         | None \<Rightarrow>
             (let repaired = s @ replicate (nat (count_unit 123 s - count_unit 125 s)) 125
              in case parse repaired of
                   Some v \<Rightarrow> Some v
                 | None \<Rightarrow> parse (substring repaired 0 (nat (lastIndexOf repaired 125) + 1))))"

section \<open>Data model\<close>

datatype Severity = Low | Medium | High

datatype DefensiveStatus = Safe | Caution | Compromised

text \<open>
  \<open>CatalogAnchor\<close>. The numeric fields and \<open>original_price\<close> may be absent (\<open>None\<close>
  is \<open>undefined\<close> or \<open>null\<close>): the code reads them through \<open>??\<close> and \<open>||\<close>.
\<close>

record CatalogAnchor =
  anchor_id :: jsstring
  name :: jsstring
  price :: jsstring
  numeric_price :: "jsnum option"
  original_price :: "jsstring option"
  original_numeric_price :: "jsnum option"
  anchor_coordinates :: "jsnum list"
  is_violation :: bool
  is_currently_visible :: bool

record DarkPatternScan =
  pattern_type :: jsstring
  coordinates :: "jsnum list"
  severity :: Severity
  truth_label :: jsstring
  action_fix :: jsstring

text \<open>
  An element of \<open>parsed.scans\<close>, of type \<open>any\<close> in the source. Its coordinates are
  \<open>None\<close> when they are not an array; an element \<open>c\<close> of the array is represented
  by the number \<open>Number(c)\<close>, which is \<open>NaN\<close> for a value that is not numeric. Its
  severity is represented by the string \<open>String(val || '')\<close>.
\<close>

record RawScan =
  raw_pattern_type :: jsstring
  raw_coordinates :: "jsnum list option"
  raw_severity :: jsstring
  raw_truth_label :: jsstring
  raw_action_fix :: jsstring

record ViewportMeta =
  threat_count :: nat
  status :: DefensiveStatus
  advice :: jsstring

text \<open>The signature object; \<open>None\<close> is a key that is absent.\<close>

record ThoughtSignature =
  reasoning_path :: "jsstring option"
  security_brief :: "jsstring option"
  catalog_anchors :: "CatalogAnchor list option"

record ScanResponse =
  viewport_meta :: ViewportMeta
  scans :: "DarkPatternScan list"
  thought_signature :: ThoughtSignature
  error :: "jsstring option"

text \<open>The object \<open>tryParsePartialJSON\<close> hands to \<open>analyzeUIScreen\<close>.\<close>

record ParsedResponse =
  parsed_scans :: "RawScan list option"
  parsed_thought_signature :: "ThoughtSignature option"

record JsError =
  err_name :: jsstring
  err_message :: jsstring

text \<open>\<open>x || d\<close> on an optional string: absent and empty are falsy.\<close>

definition truthy :: "jsstring option \<Rightarrow> bool" where
  "truthy x = (case x of None \<Rightarrow> False | Some v \<Rightarrow> v \<noteq> [])"

text \<open>\<open>x ?? 0\<close>.\<close>

definition nullish_zero :: "jsnum option \<Rightarrow> jsnum" where
  "nullish_zero x = (case x of None \<Rightarrow> Num 0 | Some v \<Rightarrow> v)"

text \<open>\<open>xs.findIndex(p)\<close>: the first index whose element satisfies \<open>p\<close>, or \<open>-1\<close>.\<close>

fun findIndex :: "('a \<Rightarrow> bool) \<Rightarrow> 'a list \<Rightarrow> int" where
  "findIndex p [] = -1"
| "findIndex p (x # xs) =
     (if p x then 0 else (let k = findIndex p xs in if k = -1 then -1 else k + 1))"

section \<open>Threat Aggregator: \<open>calculateSafetyMetrics\<close>\<close>

definition severity_score :: "Severity \<Rightarrow> nat" where
  "severity_score v = (if v = High then 10 else if v = Medium then 3 else 1)"

definition calculateSafetyMetrics :: "DarkPatternScan list \<Rightarrow> ViewportMeta" where
  "calculateSafetyMetrics ss =
     (let threatCount = length ss;
          score = foldl (\<lambda>acc x. acc + severity_score (severity x)) 0 ss;
          hasBaitSwitch = list_ex (\<lambda>x. str_includes (pattern_type x) (str ''SWITCH'')
                                     \<or> str_includes (pattern_type x) (str ''BAIT'')) ss;
          hasFinancialRisk = list_ex (\<lambda>x. str_includes (pattern_type x) (str ''SNEAK'')
                                     \<or> str_includes (pattern_type x) (str ''HIDDEN_FEE'')) ss
      in if score \<ge> 15 \<or> hasBaitSwitch \<or> hasFinancialRisk then
           \<lparr>threat_count = threatCount, status = Compromised,
            advice = str ''High deceptive load or financial risk. Verify all totals.''\<rparr>
         else if score > 0 then
           \<lparr>threat_count = threatCount, status = Caution,
            advice = str ''Manipulative patterns detected. Stay objective.''\<rparr>
         else
           \<lparr>threat_count = threatCount, status = Safe,
            advice = str ''Interface appears transparent. Safe to proceed.''\<rparr>)"

section \<open>Analysis Client: \<open>analyzeUIScreen\<close>\<close>

definition clamp_unit :: "jsnum \<Rightarrow> jsnum" where
  "clamp_unit c = Math_max (Num 0) (Math_min (Num 1000) (Math_round (js_or_zero c)))"

definition clampCoordinates :: "jsnum list option \<Rightarrow> jsnum list" where
  "clampCoordinates coords =
     (case coords of
        None \<Rightarrow> [Num 0, Num 0, Num 0, Num 0]
      | Some cs \<Rightarrow> if length cs < 4 then [Num 0, Num 0, Num 0, Num 0] else map clamp_unit cs)"

definition toSeverity :: "jsstring \<Rightarrow> Severity" where
  "toSeverity v =
     (let s = toLowerCase v
      in if str_includes s (str ''high'') then High
         else if str_includes s (str ''low'') then Low
         else Medium)"

definition clamp_scan :: "RawScan \<Rightarrow> DarkPatternScan" where
  "clamp_scan r =
     \<lparr>pattern_type = raw_pattern_type r,
      coordinates = clampCoordinates (raw_coordinates r),
      severity = toSeverity (raw_severity r),
      truth_label = raw_truth_label r,
      action_fix = raw_action_fix r\<rparr>"

subsection \<open>Catalog Reconciliation\<close>

text \<open>
  The index \<open>existingIdx\<close> of the anchor an observation matches, or \<open>-1\<close>: by
  identifier first, then by trimmed and lower-cased name. The lower-casing of the
  engine is the parameter \<open>lc\<close> of \<open>existing_index_with\<close>; \<open>existing_index\<close> is the
  search with the lower-casing of the ASCII letters, which is the engine's on names
  written in ASCII.
\<close>

definition existing_index_with ::
  "(jsstring \<Rightarrow> jsstring) \<Rightarrow> CatalogAnchor list \<Rightarrow> CatalogAnchor \<Rightarrow> int" where
  "existing_index_with lc mergedAnchors inAnchor =
     (let existingIdx = findIndex (\<lambda>a. anchor_id a = anchor_id inAnchor) mergedAnchors
      in if existingIdx = -1 \<and> name inAnchor \<noteq> [] then
           findIndex (\<lambda>a. lc (trim (name a)) = lc (trim (name inAnchor))) mergedAnchors
         else existingIdx)"

definition existing_index :: "CatalogAnchor list \<Rightarrow> CatalogAnchor \<Rightarrow> int" where
  "existing_index mergedAnchors inAnchor =
     existing_index_with toLowerCase mergedAnchors inAnchor"

text \<open>
  One round of \<open>incomingAnchors.forEach\<close>: \<open>merge_at\<close> is the body of the round once
  \<open>existingIdx\<close> is known. The literal \<open>0.01\<close> is the double nearest to \<open>1/100\<close>.
\<close>

definition merge_at :: "int \<Rightarrow> CatalogAnchor list \<Rightarrow> CatalogAnchor \<Rightarrow> CatalogAnchor list" where
  "merge_at existingIdx mergedAnchors inAnchor =
     (if existingIdx > -1 then
        (let existing = mergedAnchors ! nat existingIdx;
             origNumeric = (case original_numeric_price existing of
                              Some v \<Rightarrow> Some v
                            | None \<Rightarrow> numeric_price inAnchor);
             priceDiff = js_abs (js_sub (nullish_zero (numeric_price inAnchor))
                                        (nullish_zero origNumeric));
             isViolation = (js_gt priceDiff (Num (fl64 (1 / 100)))
                            \<or> (is_violation inAnchor \<and> js_gt priceDiff (Num (fl64 (1 / 100)))))
         in mergedAnchors[nat existingIdx :=
              inAnchor\<lparr>anchor_id := anchor_id existing,
                       original_price := (if truthy (original_price existing)
                                          then original_price existing
                                          else original_price inAnchor),
                       original_numeric_price := origNumeric,
                       is_violation := isViolation\<rparr>])
      else
        mergedAnchors @
          [inAnchor\<lparr>original_price := Some (price inAnchor),
                    original_numeric_price := numeric_price inAnchor,
                    is_violation := False\<rparr>])"

definition merge_anchor_with ::
  "(jsstring \<Rightarrow> jsstring) \<Rightarrow> CatalogAnchor list \<Rightarrow> CatalogAnchor \<Rightarrow> CatalogAnchor list" where
  "merge_anchor_with lc mergedAnchors inAnchor =
     merge_at (existing_index_with lc mergedAnchors inAnchor) mergedAnchors inAnchor"

definition merge_anchor :: "CatalogAnchor list \<Rightarrow> CatalogAnchor \<Rightarrow> CatalogAnchor list" where
  "merge_anchor mergedAnchors inAnchor = merge_anchor_with toLowerCase mergedAnchors inAnchor"

definition merge_anchors :: "CatalogAnchor list \<Rightarrow> CatalogAnchor list \<Rightarrow> CatalogAnchor list" where
  "merge_anchors previous incomingAnchors = foldl merge_anchor previous incomingAnchors"

subsection \<open>One attempt and the retry loop\<close>

text \<open>\<open>filteredPrevious\<close>: the anchors and the brief of the previous signature.\<close>

definition filteredPrevious :: "ThoughtSignature \<Rightarrow> ThoughtSignature" where
  "filteredPrevious previousSignature =
     \<lparr>reasoning_path = None,
      security_brief = (if truthy (security_brief previousSignature)
                        then security_brief previousSignature
                        else Some (str ''Session Start.'')),
      catalog_anchors = (case catalog_anchors previousSignature of
                           None \<Rightarrow> Some []
                         | Some xs \<Rightarrow> Some xs)\<rparr>"

definition anchors_of :: "ThoughtSignature \<Rightarrow> CatalogAnchor list" where
  "anchors_of sg = (case catalog_anchors sg of None \<Rightarrow> [] | Some xs \<Rightarrow> xs)"

text \<open>
  The body of the \<open>try\<close> block after the object has been parsed. Reading
  \<open>parsed.thought_signature.catalog_anchors\<close> throws a \<open>TypeError\<close> when
  \<open>thought_signature\<close> is absent.
\<close>

definition process_response :: "ThoughtSignature \<Rightarrow> ParsedResponse \<Rightarrow> JsError + ScanResponse" where
  "process_response previous parsed =
     (let clampedScans = map clamp_scan (case parsed_scans parsed of None \<Rightarrow> [] | Some xs \<Rightarrow> xs)
      in case parsed_thought_signature parsed of
           None \<Rightarrow> Inl \<lparr>err_name = str ''TypeError'',
                        err_message = str ''Cannot read properties of undefined''\<rparr>
         | Some ts \<Rightarrow>
             (let incomingAnchors = anchors_of ts;
                  mergedAnchors = merge_anchors (anchors_of previous) incomingAnchors
              in Inr \<lparr>viewport_meta = calculateSafetyMetrics clampedScans,
                      scans = clampedScans,
                      thought_signature = ts\<lparr>catalog_anchors := Some mergedAnchors\<rparr>,
                      error = None\<rparr>))"

text \<open>
  What the backend does on one attempt: after some time it answers with text that
  \<open>tryParsePartialJSON(stripMarkdown(...))\<close> turns into an object, or the attempt
  throws (the transport fails, or the text does not parse).
\<close>

datatype attempt_outcome = Responds ParsedResponse | Throws JsError

type_synonym backend = "nat \<Rightarrow> nat \<times> attempt_outcome"

text \<open>
  Time is a clock in milliseconds. The abort signal is the time at which \<open>abort()\<close>
  is called, if it is: \<open>signal.aborted\<close> holds from then on.
\<close>

definition aborted :: "nat option \<Rightarrow> nat \<Rightarrow> bool" where
  "aborted cancelAt t = (case cancelAt of None \<Rightarrow> False | Some c \<Rightarrow> c \<le> t)"

text \<open>What one attempt returns or throws.\<close>

definition run_attempt :: "ThoughtSignature \<Rightarrow> attempt_outcome \<Rightarrow> JsError + ScanResponse" where
  "run_attempt previous out =
     (case out of
        Responds parsed \<Rightarrow> process_response previous parsed
      | Throws err \<Rightarrow> Inl err)"

text \<open>
  What a run leaves behind: the loop reaching tile \<open>i\<close>, a backend call with its
  start time, a sleep with its length and its start time.
\<close>

datatype event = Tile nat | Call nat | Sleep nat nat

definition maxRetries :: nat where
  "maxRetries = 2"

definition degraded_result :: "ThoughtSignature \<Rightarrow> ScanResponse" where
  "degraded_result previous =
     \<lparr>viewport_meta = \<lparr>threat_count = 0, status = Caution,
                        advice = str ''System Focus Failed.''\<rparr>,
      scans = [],
      thought_signature =
        previous\<lparr>reasoning_path := Some (str ''Audit halted due to resource constraints.'')\<rparr>,
      error = Some (str ''Neural Link Failure (Rate Limited or Busy).'')\<rparr>"

definition halted_result :: "ThoughtSignature \<Rightarrow> ScanResponse" where
  "halted_result previous =
     \<lparr>viewport_meta = \<lparr>threat_count = 0, status = Caution, advice = str ''Audit Aborted.''\<rparr>,
      scans = [],
      thought_signature = previous\<lparr>reasoning_path := Some (str ''Max retries reached.'')\<rparr>,
      error = Some (str ''Audit Halted.'')\<rparr>"

text \<open>
  The \<open>while\<close> loop of \<open>analyzeUIScreen\<close>, from \<open>retryCount\<close> at time \<open>now\<close>. The
  result is what the call returns (\<open>Inr\<close>) or throws (\<open>Inl\<close>), the time at which it
  does, and the backend calls and sleeps on the way. \<open>wait(ms)\<close> is a plain timer:
  it ends \<open>ms\<close> later and never looks at the signal.
\<close>

function analyze_loop ::
  "nat option \<Rightarrow> backend \<Rightarrow> ThoughtSignature \<Rightarrow> nat \<Rightarrow> nat
   \<Rightarrow> (JsError + ScanResponse) \<times> nat \<times> event list" where
  "analyze_loop cancelAt api previous retryCount now =
     (if retryCount \<le> maxRetries then
        (if aborted cancelAt now then
           (Inl \<lparr>err_name = str ''Error'', err_message = str ''AbortError''\<rparr>, now, [])
         else
           (let done = now + fst (api retryCount);
                attempt = run_attempt previous (snd (api retryCount))
            in case attempt of
                 Inr result \<Rightarrow> (Inr result, done, [Call now])
               | Inl err \<Rightarrow>
                   if err_name err = str ''AbortError'' then (Inl err, done, [Call now])
                   else if retryCount < maxRetries then
                     (case analyze_loop cancelAt api previous (retryCount + 1)
                             (done + (retryCount + 1) * 5000) of
                        (r, t, evs) \<Rightarrow>
                          (r, t, Call now # Sleep ((retryCount + 1) * 5000) done # evs))
                   else (Inr (degraded_result previous), done, [Call now])))
      else (Inr (halted_result previous), now, []))"
  by pat_completeness auto
termination
  by (relation "measure (\<lambda>(cancelAt, api, previous, retryCount, now). 3 - retryCount)")
     (auto simp: maxRetries_def)

definition analyzeUIScreen ::
  "nat option \<Rightarrow> backend \<Rightarrow> ThoughtSignature \<Rightarrow> nat
   \<Rightarrow> (JsError + ScanResponse) \<times> nat \<times> event list" where
  "analyzeUIScreen cancelAt api previousSignature now =
     analyze_loop cancelAt api (filteredPrevious previousSignature) 0 now"

section \<open>Partitioner and Coordinate Remapper\<close>

definition maxTileHeight :: int where
  "maxTileHeight = 1536"

definition overlap :: int where
  "overlap = 150"

definition effectiveTileHeight :: int where
  "effectiveTileHeight = maxTileHeight - overlap"

definition numTiles :: "nat \<Rightarrow> int" where
  "numTiles fullHeight =
     (if int fullHeight \<le> maxTileHeight then 1
      else \<lceil>(real fullHeight - real_of_int overlap) / real_of_int effectiveTileHeight\<rceil>)"

definition offsetY :: "nat \<Rightarrow> int" where
  "offsetY i = \<lfloor>real i * real_of_int effectiveTileHeight\<rfloor>"

definition currentTileHeight :: "nat \<Rightarrow> nat \<Rightarrow> int" where
  "currentTileHeight fullHeight i =
     \<lfloor>min (real_of_int maxTileHeight) (real fullHeight - real_of_int (offsetY i))\<rfloor>"

text \<open>
  \<open>(((ly / 1000 * currentTileHeight) + offsetY) / fullHeight) * 1000\<close>.
\<close>

definition remap_y :: "jsnum \<Rightarrow> int \<Rightarrow> int \<Rightarrow> nat \<Rightarrow> jsnum" where
  "remap_y ly tileHeight offY fullHeight =
     js_mul (js_div (js_add (js_mul (js_div ly (Num 1000)) (Num (of_int tileHeight)))
                            (Num (of_int offY)))
                    (Num (real fullHeight)))
            (Num 1000)"

text \<open>
  A component of a destructured array; one that is missing is \<open>undefined\<close>, which
  arithmetic turns into \<open>NaN\<close>.
\<close>

definition component :: "jsnum list \<Rightarrow> nat \<Rightarrow> jsnum" where
  "component cs k = (if k < length cs then cs ! k else NaN)"

definition remap_box :: "jsnum list \<Rightarrow> int \<Rightarrow> int \<Rightarrow> nat \<Rightarrow> jsnum list" where
  "remap_box cs tileHeight offY fullHeight =
     [remap_y (component cs 0) tileHeight offY fullHeight, component cs 1,
      remap_y (component cs 2) tileHeight offY fullHeight, component cs 3]"

section \<open>Orchestrator: \<open>handleScan\<close>\<close>

definition TILE_COOLDOWN :: nat where
  "TILE_COOLDOWN = 5000"

datatype run_end = Running | Done | Cancelled | Halted | Failed

text \<open>
  The variables of the tile loop (\<open>loopSignature\<close>, \<open>currentTotalScans\<close>,
  \<open>loopHistory\<close>, \<open>finalStatus\<close>, \<open>finalAdvice\<close>), what the run has emitted to the
  component state (\<open>setScans\<close>, \<open>setViewportMeta\<close>, \<open>setError\<close>, \<open>setLastSignature\<close>),
  the clock, the events so far and how the run ended.
\<close>

record ScanState =
  loopSignature :: ThoughtSignature
  currentTotalScans :: "DarkPatternScan list"
  loopHistory :: "(jsstring \<times> jsstring) list"
  finalStatus :: DefensiveStatus
  finalAdvice :: jsstring
  ui_scans :: "DarkPatternScan list"
  ui_viewportMeta :: "ViewportMeta option"
  ui_error :: "jsstring option"
  ui_lastSignature :: ThoughtSignature
  clock :: nat
  events :: "event list"
  ended :: run_end

text \<open>The synthetic finding of an anchor in violation.\<close>

definition synthetic_finding :: "CatalogAnchor \<Rightarrow> int \<Rightarrow> int \<Rightarrow> nat \<Rightarrow> DarkPatternScan" where
  "synthetic_finding anchor tileHeight offY fullHeight =
     \<lparr>pattern_type = str ''BAIT-AND-SWITCH'',
      coordinates = remap_box (anchor_coordinates anchor) tileHeight offY fullHeight,
      severity = High,
      truth_label = name anchor @ str '': Price hiked since session start.'',
      action_fix =
        str ''Suspicious price movement detected. Re-verify the total before confirming.''\<rparr>"

definition tile_findings :: "ScanResponse \<Rightarrow> int \<Rightarrow> int \<Rightarrow> nat \<Rightarrow> DarkPatternScan list" where
  "tile_findings result tileHeight offY fullHeight =
     map (\<lambda>anchor. synthetic_finding anchor tileHeight offY fullHeight)
       (filter (\<lambda>anchor. is_violation anchor \<and> is_currently_visible anchor
                  \<and> \<not> list_all js_is_zero (anchor_coordinates anchor))
          (anchors_of (thought_signature result)))
     @ map (\<lambda>scan. scan\<lparr>coordinates := remap_box (coordinates scan) tileHeight offY fullHeight\<rparr>)
         (filter (\<lambda>scan. \<not> list_all js_is_zero (coordinates scan)) (scans result))"

text \<open>\<open>{ ...a, ...b }\<close> on signatures: the keys of \<open>b\<close> win.\<close>

definition spread :: "ThoughtSignature \<Rightarrow> ThoughtSignature \<Rightarrow> ThoughtSignature" where
  "spread a b =
     \<lparr>reasoning_path = (case reasoning_path b of None \<Rightarrow> reasoning_path a | Some v \<Rightarrow> Some v),
      security_brief = (case security_brief b of None \<Rightarrow> security_brief a | Some v \<Rightarrow> Some v),
      catalog_anchors = (case catalog_anchors b of None \<Rightarrow> catalog_anchors a | Some v \<Rightarrow> Some v)\<rparr>"

text \<open>The part of the loop body after a result without error marker.\<close>

definition merge_tile :: "ScanState \<Rightarrow> ScanResponse \<Rightarrow> int \<Rightarrow> int \<Rightarrow> nat \<Rightarrow> ScanState" where
  "merge_tile st result tileHeight offY fullHeight =
     (let tileSpecificScans = tile_findings result tileHeight offY fullHeight;
          total = currentTotalScans st @ tileSpecificScans;
          history = loopHistory st @ map (\<lambda>m. (pattern_type m, truth_label m)) tileSpecificScans;
          st1 = (if status (viewport_meta result) = Compromised then
                   st\<lparr>finalStatus := Compromised, finalAdvice := advice (viewport_meta result)\<rparr>
                 else if status (viewport_meta result) = Caution
                         \<and> finalStatus st \<noteq> Compromised then
                   st\<lparr>finalStatus := Caution, finalAdvice := advice (viewport_meta result)\<rparr>
                 else st);
          sig = spread (loopSignature st) (thought_signature result)
      in st1\<lparr>loopSignature := sig,
             currentTotalScans := total,
             loopHistory := history,
             ui_scans := total,
             ui_viewportMeta := Some \<lparr>threat_count = length total, status = finalStatus st1,
                                      advice = finalAdvice st1\<rparr>,
             ui_lastSignature := sig\<rparr>)"

text \<open>
  The cooldown before every tile but the first:
  \<open>await new Promise(r => setTimeout(r, TILE_COOLDOWN))\<close>.
\<close>

definition cooldown :: "nat \<Rightarrow> ScanState \<Rightarrow> ScanState" where
  "cooldown i st =
     (if i > 0 then
        st\<lparr>clock := clock st + TILE_COOLDOWN,
           events := events st @ [Sleep TILE_COOLDOWN (clock st)]\<rparr>
      else st)"

text \<open>
  The \<open>for\<close> loop over the tiles, from tile \<open>i\<close>, with its \<open>catch\<close>. The backend is
  given per tile. The cooldown is a plain timer of \<open>TILE_COOLDOWN\<close> milliseconds.
\<close>

function tile_loop ::
  "nat option \<Rightarrow> (nat \<Rightarrow> backend) \<Rightarrow> nat \<Rightarrow> nat \<Rightarrow> ScanState \<Rightarrow> ScanState" where
  "tile_loop cancelAt api fullHeight i st =
     (if int i < numTiles fullHeight then
        (if aborted cancelAt (clock st) then st\<lparr>ended := Cancelled\<rparr>
         else
           (let st1 = cooldown i st;
                offY = offsetY i;
                tileHeight = currentTileHeight fullHeight i
            in case analyzeUIScreen cancelAt (api i) (loopSignature st1) (clock st1) of
                 (r, t, evs) \<Rightarrow>
                   (let st2 = st1\<lparr>clock := t, events := events st1 @ Tile i # evs\<rparr>
                    in case r of
                         Inl err \<Rightarrow>
                           if err_message err \<noteq> str ''AbortError'' then
                             st2\<lparr>ui_error := Some (str ''Audit Failure. System Overload.''),
                                 ended := Failed\<rparr>
                           else st2\<lparr>ended := Cancelled\<rparr>
                       | Inr result \<Rightarrow>
                           if truthy (error result) then
                             st2\<lparr>ui_error := error result, ended := Halted\<rparr>
                           else
                             tile_loop cancelAt api fullHeight (i + 1)
                               (merge_tile st2 result tileHeight offY fullHeight))))
      else st\<lparr>ended := Done\<rparr>)"
  by pat_completeness auto
termination
  by (relation "measure (\<lambda>(cancelAt, api, fullHeight, i, st). nat (numTiles fullHeight) - i)")
     auto

definition initial_state ::
  "ThoughtSignature \<Rightarrow> (jsstring \<times> jsstring) list \<Rightarrow> nat \<Rightarrow> ScanState" where
  "initial_state lastSignature auditHistory start =
     \<lparr>loopSignature = lastSignature,
      currentTotalScans = [],
      loopHistory = auditHistory,
      finalStatus = Safe,
      finalAdvice = str ''Interface appears transparent. Safe to proceed.'',
      ui_scans = [],
      ui_viewportMeta = None,
      ui_error = None,
      ui_lastSignature = lastSignature,
      clock = start,
      events = [],
      ended = Running\<rparr>"

text \<open>
  \<open>handleScan\<close>, past its guards (an image is loaded and no scan is running): the
  run over an image of height \<open>fullHeight\<close>, started at time \<open>start\<close>.
\<close>

definition handleScan ::
  "nat option \<Rightarrow> (nat \<Rightarrow> backend) \<Rightarrow> nat \<Rightarrow> ThoughtSignature
   \<Rightarrow> (jsstring \<times> jsstring) list \<Rightarrow> nat \<Rightarrow> ScanState" where
  "handleScan cancelAt api fullHeight lastSignature auditHistory start =
     tile_loop cancelAt api fullHeight 0 (initial_state lastSignature auditHistory start)"

text \<open>
  Two response texts cut short: \<open>{"a":1\<close>, which holds no closing brace, and
  \<open>{"a":{"b":1}\<close>, which ends with the closing brace of its inner object.
\<close>

definition unclosed_member :: jsstring where
  "unclosed_member = str ''{'' @ [34] @ str ''a'' @ [34] @ str '':1''"

definition unclosed_response :: jsstring where
  "unclosed_response =
     str ''{'' @ [34] @ str ''a'' @ [34] @ str '':{'' @ [34] @ str ''b'' @ [34] @ str '':1}''"

section \<open>Specification-side notions\<close>

text \<open>
  ``Contains \<open>w\<close> as a case-insensitive substring'': at some position of \<open>s\<close> the code
  units of \<open>w\<close> follow, each equal to its counterpart up to the case of a letter.
\<close>

fun prefix_ci :: "jsstring \<Rightarrow> jsstring \<Rightarrow> bool" where
  "prefix_ci s [] = True"
| "prefix_ci [] (c # t) = False"
| "prefix_ci (x # s) (c # t) = (lower_unit x = lower_unit c \<and> prefix_ci s t)"

fun contains_ci :: "jsstring \<Rightarrow> jsstring \<Rightarrow> bool" where
  "contains_ci [] w = (w = [])"
| "contains_ci (x # s) w = (prefix_ci (x # s) w \<or> contains_ci s w)"

text \<open>
  An observation of the anchor \<open>sku1\<close> as the backend reports it: its price text, its
  numeric price and its bounding box, visible, with no violation flag of its own.
\<close>

definition sku1 :: "jsstring \<Rightarrow> real \<Rightarrow> jsnum list \<Rightarrow> CatalogAnchor" where
  "sku1 pr p cs =
     \<lparr>anchor_id = str ''sku1'', name = str ''Plan'', price = pr,
      numeric_price = Some (Num p), original_price = None, original_numeric_price = None,
      anchor_coordinates = cs, is_violation = False, is_currently_visible = True\<rparr>"

definition box1 :: "jsnum list" where
  "box1 = [Num 100, Num 100, Num 200, Num 200]"

text \<open>A response whose text parsed into the given findings and anchor observations.\<close>

definition response :: "RawScan list \<Rightarrow> CatalogAnchor list \<Rightarrow> attempt_outcome" where
  "response found anchors =
     Responds \<lparr>parsed_scans = Some found,
               parsed_thought_signature =
                 Some \<lparr>reasoning_path = Some (str ''trace''),
                       security_brief = Some (str ''brief''),
                       catalog_anchors = Some anchors\<rparr>\<rparr>"

definition empty_signature :: ThoughtSignature where
  "empty_signature = \<lparr>reasoning_path = None, security_brief = None, catalog_anchors = None\<rparr>"

text \<open>
  The two-tile scan of the specification: every call takes a second; tile 1 reports
  \<open>sku1\<close> at 10.00, tile 2 reports it at 12.00; the backend reports no finding.
\<close>

definition two_tile_backend :: "nat \<Rightarrow> backend" where
  "two_tile_backend tile attempt =
     (1000, if tile = 0 then response [] [sku1 (str ''$10.00'') 10 box1]
            else response [] [sku1 (str ''$12.00'') 12 box1])"

text \<open>A box out of range, and a finding of the backend with given coordinates.\<close>

definition wild_box :: "jsnum list" where
  "wild_box = [Num (- 50), NaN, Num 2000, Num (9 / 2)]"

definition raw_finding :: "jsnum list option \<Rightarrow> RawScan" where
  "raw_finding cs =
     \<lparr>raw_pattern_type = str ''SCARCITY'', raw_coordinates = cs,
      raw_severity = str ''Medium'', raw_truth_label = str ''Only 2 left'',
      raw_action_fix = str ''Ignore the counter.''\<rparr>"

text \<open>
  What \<open>analyzeUIScreen\<close> returns for a response without findings, given the merged
  catalog.
\<close>

definition quiet_result :: "CatalogAnchor list \<Rightarrow> ScanResponse" where
  "quiet_result anchors =
     \<lparr>viewport_meta = \<lparr>threat_count = 0, status = Safe,
        advice = str ''Interface appears transparent. Safe to proceed.''\<rparr>,
      scans = [],
      thought_signature =
        \<lparr>reasoning_path = Some (str ''trace''), security_brief = Some (str ''brief''),
         catalog_anchors = Some anchors\<rparr>,
      error = None\<rparr>"

text \<open>The anchor \<open>sku1\<close> in the catalog: baseline 10.00, with its flag.\<close>

definition sku1_held :: "jsstring \<Rightarrow> real \<Rightarrow> bool \<Rightarrow> CatalogAnchor" where
  "sku1_held pr p v =
     (sku1 pr p box1)\<lparr>original_price := Some (str ''$10.00''),
        original_numeric_price := Some (Num 10), is_violation := v\<rparr>"

text \<open>
  A scan whose first tile is answered with one finding and whose second tile is
  rate limited on every attempt.
\<close>

definition rate_limited :: JsError where
  "rate_limited = \<lparr>err_name = str ''Error'', err_message = str ''429 Too Many Requests''\<rparr>"

definition second_tile_fails :: "nat \<Rightarrow> backend" where
  "second_tile_fails tile attempt =
     (1000, if tile = 0 then response [raw_finding (Some box1)] [] else Throws rate_limited)"

text \<open>
  The formula of the Coordinate Remapper,
  \<open>((local_y / 1000 * h) + offset) / H * 1000\<close>, each operation rounded to a double.
\<close>

definition spec_remap :: "real \<Rightarrow> int \<Rightarrow> int \<Rightarrow> nat \<Rightarrow> real" where
  "spec_remap ly h off H =
     fl64 (fl64 (fl64 (fl64 (fl64 (ly / 1000) * of_int h) + of_int off) / real H) * 1000)"

section \<open>Evaluation of the definitions\<close>

text \<open>The loops are unfolded one round at a time, by the lemmas below.\<close>

declare analyze_loop.simps [simp del] tile_loop.simps [simp del]

lemma str_simps: "str [] = []" "str (c # cs) = of_char c # str cs"
  by (simp_all add: str_def)

lemmas cp_defs = cleanPrice_def str_simps trim_def is_ws_def toLowerCase_def lower_unit_def
  is_digit_def is_numchar_def currency_at_def opt_ws_then_def numeral_then_def
  alt_currency_first_def alt_currency_last_def digits_val_def parseFloat_def
  clean_separators_def remove_all_def Let_def

section \<open>Double-precision arithmetic: properties\<close>

lemma rne_of_int: "rne (of_int n) = n"
  by (simp add: rne_def)

lemma rne_le: "r \<le> of_int N \<Longrightarrow> rne r \<le> N"
proof -
  assume a: "r \<le> of_int N"
  have f: "\<lfloor>r\<rfloor> \<le> N" using a by (simp add: floor_le_iff)
  show ?thesis
  proof (cases "r = of_int \<lfloor>r\<rfloor>")
    case True
    then show ?thesis using f by (simp add: rne_def)
  next
    case False
    then have "of_int \<lfloor>r\<rfloor> < r" by linarith
    with a have "\<lfloor>r\<rfloor> < N" by linarith
    then show ?thesis by (simp add: rne_def Let_def)
  qed
qed

lemma rne_ge: "of_int N \<le> r \<Longrightarrow> N \<le> rne r"
proof -
  assume a: "of_int N \<le> r"
  then have "N \<le> \<lfloor>r\<rfloor>" by (simp add: le_floor_iff)
  then show ?thesis by (simp add: rne_def Let_def)
qed

lemma floor_log2_eq:
  assumes "2 powi k \<le> x" and "x < 2 powi (k + 1)"
  shows "\<lfloor>log 2 x\<rfloor> = k"
proof -
  have p: "0 < x" using assms(1) by (smt (verit) zero_less_power_int)
  have a: "(2::real) powr real_of_int k = 2 powi k"
    by (rule powr_real_of_int') simp_all
  have "(2::real) powr real_of_int (k + 1) = 2 powi (k + 1)"
    by (rule powr_real_of_int') simp_all
  then have b: "(2::real) powr (real_of_int k + 1) = 2 powi (k + 1)"
    by simp
  have "(2::real) powr real_of_int k \<le> x \<and> x < 2 powr (real_of_int k + 1)"
    unfolding a b using assms by simp
  then show ?thesis using floor_log_eq_powr_iff [OF p, of 2 k] by simp
qed

lemma floor_log2_less:
  assumes "0 < x" and "x < 2 powi j"
  shows "\<lfloor>log 2 x\<rfloor> < j"
proof -
  have a: "(2::real) powr real_of_int j = 2 powi j"
    by (rule powr_real_of_int') simp_all
  have "log 2 x < of_int j"
    using assms by (simp add: log_less_iff a)
  then show ?thesis by (simp add: floor_less_iff)
qed


lemma ulp_exp_le:
  assumes "x \<noteq> 0" and "\<bar>x\<bar> < 2 powi (53 + e)" and "- 1074 \<le> e"
  shows "ulp_exp x \<le> e"
proof -
  have "\<lfloor>log 2 \<bar>x\<bar>\<rfloor> < 53 + e"
    using assms(1,2) by (intro floor_log2_less) simp_all
  with assms(3) show ?thesis by (simp add: ulp_exp_def)
qed

lemma scaled_int:
  assumes "u \<le> e"
  shows "of_int m * 2 powi e / 2 powi u = (of_int (m * 2 ^ nat (e - u)) :: real)"
proof -
  have "(2::real) powi e = 2 powi (e - u) * 2 powi u"
    by (simp flip: power_int_add)
  also have "(2::real) powi (e - u) = 2 ^ nat (e - u)"
    using assms by (simp add: power_int_def)
  finally show ?thesis by simp
qed

lemma fl64_exact:
  assumes "\<bar>m\<bar> < 2 ^ 53" and "- 1074 \<le> e"
  shows "fl64 (of_int m * 2 powi e) = of_int m * 2 powi e"
proof (cases "m = 0")
  case True
  then show ?thesis by (simp add: fl64_def)
next
  case False
  define x :: real where "x = of_int m * 2 powi e"
  have nz: "x \<noteq> 0" using False by (simp add: x_def)
  have "\<bar>real_of_int m\<bar> < 2 ^ 53"
    using assms(1) by (metis of_int_abs of_int_less_numeral_power_cancel_iff)
  then have "\<bar>x\<bar> < 2 ^ 53 * 2 powi e"
    by (simp add: x_def abs_mult)
  also have "\<dots> = 2 powi (53 + e)"
    by (simp add: power_int_add)
  finally have u: "ulp_exp x \<le> e" using nz assms(2) by (intro ulp_exp_le)
  have xe: "of_int m * 2 powi e = x" by (simp add: x_def)
  have "x / 2 powi ulp_exp x = of_int (m * 2 ^ nat (e - ulp_exp x))"
    using scaled_int [OF u, of m] by (simp only: xe)
  then have "rne (x / 2 powi ulp_exp x) = m * 2 ^ nat (e - ulp_exp x)"
    by (simp only: rne_of_int)
  then have "fl64 x = of_int (m * 2 ^ nat (e - ulp_exp x)) * 2 powi ulp_exp x"
    using nz by (simp add: fl64_def)
  also have "\<dots> = (of_int m * 2 powi e / 2 powi ulp_exp x) * 2 powi ulp_exp x"
    by (simp only: scaled_int [OF u])
  also have "\<dots> = x" by (simp add: x_def)
  finally show ?thesis by (simp add: x_def)
qed

lemma fl64_of_int: "\<bar>n\<bar> < 2 ^ 53 \<Longrightarrow> fl64 (of_int n) = of_int n"
  using fl64_exact [of n 0] by simp

lemma fl64_nonneg: "0 \<le> x \<Longrightarrow> 0 \<le> fl64 x"
proof -
  assume a: "0 \<le> x"
  have "0 \<le> x / 2 powi ulp_exp x" using a by simp
  then have "0 \<le> rne (x / 2 powi ulp_exp x)"
    using rne_ge [of 0] by simp
  then show ?thesis by (simp add: fl64_def)
qed

lemma fl64_le_int:
  assumes "0 \<le> x" and "x \<le> of_int n" and "n < 2 ^ 53"
  shows "fl64 x \<le> of_int n"
proof (cases "x = 0")
  case True
  then show ?thesis using assms by (simp add: fl64_def)
next
  case False
  have "real_of_int n < 2 ^ 53"
    using assms(3) by (metis of_int_less_numeral_power_cancel_iff)
  then have "\<bar>x\<bar> < 2 powi (53 + 0)" using assms(1,2) by simp
  then have u: "ulp_exp x \<le> 0" using False by (intro ulp_exp_le) simp_all
  have s: "of_int n * 2 powi 0 / 2 powi ulp_exp x
      = (of_int (n * 2 ^ nat (0 - ulp_exp x)) :: real)"
    by (rule scaled_int [OF u])
  have "x / 2 powi ulp_exp x \<le> of_int n / 2 powi ulp_exp x"
    using assms(2) by (simp add: divide_right_mono)
  also have "\<dots> = of_int (n * 2 ^ nat (0 - ulp_exp x))" using s by simp
  finally have "rne (x / 2 powi ulp_exp x) \<le> n * 2 ^ nat (0 - ulp_exp x)"
    by (rule rne_le)
  then have "real_of_int (rne (x / 2 powi ulp_exp x))
      \<le> of_int (n * 2 ^ nat (0 - ulp_exp x))"
    by (simp only: of_int_le_iff)
  then have "fl64 x \<le> of_int (n * 2 ^ nat (0 - ulp_exp x)) * 2 powi ulp_exp x"
    using False by (simp add: fl64_def)
  also have "\<dots> = (of_int n * 2 powi 0 / 2 powi ulp_exp x) * 2 powi ulp_exp x"
    by (simp only: s)
  also have "\<dots> = of_int n" by simp
  finally show ?thesis .
qed

lemma fl64_binade:
  assumes "2 powi k \<le> \<bar>x\<bar>" and "\<bar>x\<bar> < 2 powi (k + 1)" and "- 1022 \<le> k"
  shows "fl64 x = of_int (rne (x / 2 powi (k - 52))) * 2 powi (k - 52)"
proof -
  have "\<lfloor>log 2 \<bar>x\<bar>\<rfloor> = k" using assms(1,2) by (rule floor_log2_eq)
  then have u: "ulp_exp x = k - 52" using assms(3) by (simp add: ulp_exp_def)
  have "0 < \<bar>x\<bar>" using assms(1) by (smt (verit) zero_less_power_int)
  then show ?thesis by (simp add: fl64_def u)
qed


lemma to_double_of_int: "\<bar>n\<bar> < 2 ^ 53 \<Longrightarrow> to_double (of_int n) = Num (of_int n)"
proof -
  assume a: "\<bar>n\<bar> < 2 ^ 53"
  then have "\<bar>real_of_int n\<bar> < 2 ^ 53"
    by (metis of_int_abs of_int_less_numeral_power_cancel_iff)
  moreover have "(2::real) ^ 53 \<le> 2 ^ 1024"
    by (rule power_increasing) simp_all
  ultimately have "\<not> 2 ^ 1024 \<le> real_of_int n \<and> \<not> real_of_int n \<le> - (2 ^ 1024)"
    by linarith
  then show ?thesis using fl64_of_int [OF a] by (simp add: to_double_def)
qed

lemma to_double_numeral [simp]:
  "(numeral k :: int) < 2 ^ 53 \<Longrightarrow> to_double (numeral k) = Num (numeral k)"
  using to_double_of_int [of "numeral k"] by simp

lemma to_double_neg_numeral [simp]:
  "(numeral k :: int) < 2 ^ 53 \<Longrightarrow> to_double (- numeral k) = Num (- numeral k)"
  using to_double_of_int [of "- numeral k"] by simp

lemma to_double_0 [simp]: "to_double 0 = Num 0"
  using to_double_of_int [of 0] by simp

lemma to_double_1 [simp]: "to_double 1 = Num 1"
  using to_double_of_int [of 1] by simp

lemma fl64_cent [simp]: "fl64 (1 / 100) = 5764607523034235 / 2 ^ 59"
  using fl64_binade [of "- 7" "1 / 100"] by (simp add: rne_def)

lemma to_double_bounded:
  assumes "0 \<le> x" and "x \<le> of_int n" and "n < 2 ^ 53"
  shows "to_double x = Num (fl64 x) \<and> 0 \<le> fl64 x \<and> fl64 x \<le> of_int n"
proof -
  have a: "0 \<le> fl64 x" using assms(1) by (rule fl64_nonneg)
  have b: "fl64 x \<le> of_int n" using assms by (rule fl64_le_int)
  have "real_of_int n < 2 ^ 53"
    using assms(3) by (metis of_int_less_numeral_power_cancel_iff)
  moreover have "(2::real) ^ 53 \<le> 2 ^ 1024"
    by (rule power_increasing) simp_all
  ultimately have "\<not> 2 ^ 1024 \<le> fl64 x \<and> \<not> fl64 x \<le> - (2 ^ 1024)"
    using a b by linarith
  then show ?thesis using a b by (simp add: to_double_def)
qed

lemma to_double_small: "\<bar>fl64 x\<bar> < 2 ^ 53 \<Longrightarrow> to_double x = Num (fl64 x)"
proof -
  assume "\<bar>fl64 x\<bar> < 2 ^ 53"
  moreover have "(2::real) ^ 53 \<le> 2 ^ 1024"
    by (rule power_increasing) simp_all
  ultimately have "\<not> 2 ^ 1024 \<le> fl64 x \<and> \<not> fl64 x \<le> - (2 ^ 1024)"
    by linarith
  then show ?thesis by (simp add: to_double_def)
qed

lemma to_double_of_nat: "n < 2 ^ 53 \<Longrightarrow> to_double (real n) = Num (real n)"
  using to_double_of_int [of "int n"] by simp

lemma to_double_dyadic:
  assumes "\<bar>m\<bar> < 2 ^ 53" and "j \<le> 1074"
  shows "to_double (of_int m / 2 ^ j) = Num (of_int m / 2 ^ j)"
proof -
  have e: "real_of_int m / 2 ^ j = of_int m * 2 powi (- int j)"
    by (simp add: power_int_minus field_simps)
  have f: "fl64 (real_of_int m / 2 ^ j) = real_of_int m / 2 ^ j"
    unfolding e using assms by (intro fl64_exact) simp_all
  have "\<bar>real_of_int m\<bar> < 2 ^ 53"
    using assms(1) by (metis of_int_abs of_int_less_numeral_power_cancel_iff)
  moreover have "\<bar>real_of_int m / 2 ^ j\<bar> \<le> \<bar>real_of_int m\<bar>"
    by (simp add: field_simps mult_le_cancel_left1)
  ultimately have "\<bar>fl64 (real_of_int m / 2 ^ j)\<bar> < 2 ^ 53"
    by (simp only: f)
  then show ?thesis using to_double_small f by simp
qed

section \<open>Price Normalizer: properties\<close>

lemma prefix_ci_startsWith:
  "map lower_unit w = w \<Longrightarrow> prefix_ci s w = startsWith (map lower_unit s) w"
  by (induction s w rule: prefix_ci.induct) auto

lemma contains_ci_includes:
  "map lower_unit w = w \<Longrightarrow> contains_ci s w = str_includes (toLowerCase s) w"
  by (induction s) (simp_all add: toLowerCase_def prefix_ci_startsWith)

lemma startsWith_hd: "startsWith s (c # t) \<Longrightarrow> c \<in> set s"
  by (cases s) auto

lemma includes_hd: "str_includes s (c # t) \<Longrightarrow> c \<in> set s"
  by (induction s) (auto dest: startsWith_hd)

lemma trim_empty: "trim s = [] \<Longrightarrow> \<forall>c\<in>set s. is_ws c"
proof -
  assume "trim s = []"
  then have a: "dropWhile is_ws (rev (dropWhile is_ws s)) = []"
    by (simp add: trim_def)
  then have "\<forall>c\<in>set (dropWhile is_ws s). is_ws c"
    by (simp add: dropWhile_eq_Nil_conv)
  then have "dropWhile is_ws s = []"
    by (metis hd_dropWhile list.set_sel(1))
  then show ?thesis by (simp add: dropWhile_eq_Nil_conv)
qed

lemma lower_word_not_blank:
  assumes "str_includes (toLowerCase val) (c # t)" "\<forall>x. lower_unit x = c \<longrightarrow> \<not> is_ws x"
  shows "val \<noteq> [] \<and> trim val \<noteq> []"
proof -
  from assms(1) have "c \<in> set (toLowerCase val)" by (rule includes_hd)
  then obtain x where x: "x \<in> set val" "lower_unit x = c"
    by (auto simp: toLowerCase_def)
  with assms(2) have "\<not> is_ws x" by blast
  with x(1) show ?thesis using trim_empty by fastforce
qed

lemma lower_f: "lower_unit x = 102 \<longrightarrow> \<not> is_ws x"
  by (auto simp: lower_unit_def is_ws_def split: if_splits)

lemma lower_g: "lower_unit x = 103 \<longrightarrow> \<not> is_ws x"
  by (auto simp: lower_unit_def is_ws_def split: if_splits)

text \<open>
  Claim C10. Every input string that contains \<open>free\<close> or \<open>gratis\<close> as a
  case-insensitive substring, anywhere in it, is normalized to \<open>0\<close>, whatever digits
  or prices it also holds: the test comes before any numeral is looked for.
\<close>

theorem cleanPrice_free_gratis_zero:
  assumes "contains_ci val (str ''free'') \<or> contains_ci val (str ''gratis'')"
  shows "cleanPrice (Some val) = Num 0"
proof -
  have lf: "map lower_unit (str ''free'') = str ''free''"
    and lg: "map lower_unit (str ''gratis'') = str ''gratis''"
    by (simp_all add: str_simps lower_unit_def)
  from assms have inc: "str_includes (toLowerCase val) (str ''free'')
      \<or> str_includes (toLowerCase val) (str ''gratis'')"
    by (simp add: contains_ci_includes [OF lf] contains_ci_includes [OF lg])
  then have "val \<noteq> [] \<and> trim val \<noteq> []"
  proof
    assume "str_includes (toLowerCase val) (str ''free'')"
    then show ?thesis using lower_word_not_blank [of val 102] lower_f
      by (simp add: str_simps)
  next
    assume "str_includes (toLowerCase val) (str ''gratis'')"
    then show ?thesis using lower_word_not_blank [of val 103] lower_g
      by (simp add: str_simps)
  qed
  with inc show ?thesis
    by (simp add: cleanPrice_def Let_def)
qed

theorem cleanPrice_free_gratis_zero_witness:
  "contains_ci (str ''Free trial, then $9.99'') (str ''free'')
   \<and> cleanPrice (Some (str ''Free trial, then $9.99'')) = Num 0"
proof -
  have h: "contains_ci (str ''Free trial, then $9.99'') (str ''free'')"
    by (simp add: str_simps lower_unit_def)
  show ?thesis using h cleanPrice_free_gratis_zero [of "str ''Free trial, then $9.99''"]
    by simp
qed

text \<open>
  Claim C7. The separator rules hold on the two examples of the specification, but
  a lone comma that is a thousands separator is removed at its first occurrence
  only (\<open>raw.replace(',', '')\<close>), where the lone dot is removed everywhere
  (\<open>raw.replace(/\./g, '')\<close>): \<open>$1,234,567\<close> is cleaned to \<open>1234,567\<close> and
  normalized to \<open>1234\<close>, not to \<open>1234567\<close>.
\<close>

theorem cleanPrice_comma_thousands_first_only:
  "cleanPrice (Some (str ''$1,234,567'')) = Num 1234
   \<and> clean_separators (str ''1,234,567'') = str ''1234,567''
   \<and> cleanPrice (Some (str ''$1,234.56'')) = Num 1234.56
   \<and> cleanPrice (Some (str ''1.234,56 '' @ [8364])) = Num 1234.56"
  by (simp add: cp_defs)

section \<open>Partitioner and Coordinate Remapper: properties\<close>

lemma offsetY_eq: "offsetY i = int i * 1386"
proof -
  have "real i * real_of_int effectiveTileHeight = of_int (int i * 1386)"
    by (simp add: effectiveTileHeight_def maxTileHeight_def overlap_def)
  then show ?thesis unfolding offsetY_def by (simp only: floor_of_int)
qed

lemma currentTileHeight_eq: "currentTileHeight H i = min 1536 (int H - int i * 1386)"
proof -
  have "min (real_of_int maxTileHeight) (real H - real_of_int (offsetY i))
      = of_int (min 1536 (int H - int i * 1386))"
    by (simp add: offsetY_eq maxTileHeight_def min_def)
  then show ?thesis unfolding currentTileHeight_def by (simp only: floor_of_int)
qed

lemma numTiles_small: "int H \<le> 1536 \<Longrightarrow> numTiles H = 1"
  by (simp add: numTiles_def maxTileHeight_def)

lemma numTiles_ceiling: "1536 < int H \<Longrightarrow> numTiles H = \<lceil>(real H - 150) / 1386\<rceil>"
  by (simp add: numTiles_def maxTileHeight_def overlap_def effectiveTileHeight_def)

lemma numTiles_bounds:
  assumes "1536 < int H"
  shows "(numTiles H - 1) * 1386 < int H - 150" and "int H - 150 \<le> numTiles H * 1386"
proof -
  define x where "x = (real H - 150) / 1386"
  have n: "numTiles H = \<lceil>x\<rceil>"
    using assms by (simp add: numTiles_ceiling x_def)
  have xe: "x * 1386 = real H - 150"
    by (simp add: x_def)
  have c1: "of_int \<lceil>x\<rceil> - 1 < x" and c2: "x \<le> of_int \<lceil>x\<rceil>"
    by linarith+
  from c1 have "(real_of_int \<lceil>x\<rceil> - 1) * 1386 < x * 1386"
    by simp
  then have "(real_of_int (numTiles H) - 1) * 1386 < real H - 150"
    by (simp only: xe n)
  moreover from c2 have "x * 1386 \<le> real_of_int \<lceil>x\<rceil> * 1386"
    by simp
  then have "real H - 150 \<le> real_of_int (numTiles H) * 1386"
    by (simp only: xe n)
  ultimately have "real_of_int ((numTiles H - 1) * 1386) < real_of_int (int H - 150)"
    and "real_of_int (int H - 150) \<le> real_of_int (numTiles H * 1386)"
    by simp_all
  then show "(numTiles H - 1) * 1386 < int H - 150" and "int H - 150 \<le> numTiles H * 1386"
    by (simp_all only: of_int_less_iff of_int_le_iff)
qed

lemma tile_inside:
  assumes "int i < numTiles H"
  shows "0 \<le> offsetY i" "0 \<le> currentTileHeight H i"
    "offsetY i + currentTileHeight H i \<le> int H"
proof -
  show "0 \<le> offsetY i" by (simp add: offsetY_eq)
  show "offsetY i + currentTileHeight H i \<le> int H"
    by (simp add: offsetY_eq currentTileHeight_eq)
  show "0 \<le> currentTileHeight H i"
  proof (cases "int H \<le> 1536")
    case True
    with assms have "i = 0" by (simp add: numTiles_small)
    then show ?thesis by (simp add: currentTileHeight_eq)
  next
    case False
    then have b: "(numTiles H - 1) * 1386 < int H - 150"
      using numTiles_bounds(1) by simp
    from assms have "int i * 1386 \<le> (numTiles H - 1) * 1386" by simp
    with b show ?thesis by (simp add: currentTileHeight_eq)
  qed
qed

lemma tile_full:
  assumes "int i + 1 < numTiles H"
  shows "currentTileHeight H i = 1536" "150 < currentTileHeight H (i + 1)"
proof -
  have big: "1536 < int H"
  proof (rule ccontr)
    assume "\<not> 1536 < int H"
    then have "numTiles H = 1" by (simp add: numTiles_small)
    with assms show False by simp
  qed
  then have b: "(numTiles H - 1) * 1386 < int H - 150"
    using numTiles_bounds(1) by simp
  from assms have "(int i + 2) * 1386 \<le> numTiles H * 1386" by simp
  with b have c: "int i * 1386 + 1536 < int H" by (simp add: algebra_simps)
  then show "currentTileHeight H i = 1536" by (simp add: currentTileHeight_eq)
  from assms have "(int i + 1) * 1386 \<le> (numTiles H - 1) * 1386" by simp
  with b show "150 < currentTileHeight H (i + 1)"
    by (simp add: currentTileHeight_eq algebra_simps)
qed

lemma tile_last:
  assumes "int i + 1 = numTiles H"
  shows "offsetY i + currentTileHeight H i = int H"
proof (cases "int H \<le> 1536")
  case True
  with assms have "i = 0" by (simp add: numTiles_small)
  with True show ?thesis by (simp add: currentTileHeight_eq offsetY_eq)
next
  case False
  then have "int H - 150 \<le> numTiles H * 1386" using numTiles_bounds(2) by simp
  with assms have "int H - int i * 1386 \<le> 1536" by (simp add: algebra_simps flip: assms)
  then show ?thesis by (simp add: currentTileHeight_eq offsetY_eq)
qed

lemma tile_cover:
  assumes "y < H"
  shows "\<exists>i. int i < numTiles H \<and> offsetY i \<le> int y
          \<and> int y < offsetY i + currentTileHeight H i"
proof (cases "int H \<le> 1536")
  case True
  with assms have "int 0 < numTiles H \<and> offsetY 0 \<le> int y
      \<and> int y < offsetY 0 + currentTileHeight H 0"
    by (simp add: numTiles_small offsetY_eq currentTileHeight_eq)
  then show ?thesis by blast
next
  case False
  then have b: "(numTiles H - 1) * 1386 < int H - 150" "int H - 150 \<le> numTiles H * 1386"
    using numTiles_bounds by simp_all
  then have n1: "1 \<le> numTiles H" using False by linarith
  define q where "q = int y div 1386"
  have q: "q * 1386 \<le> int y" "int y < q * 1386 + 1386" "0 \<le> q"
    unfolding q_def by (simp_all add: algebra_simps)
  define i where "i = nat (min q (numTiles H - 1))"
  have i: "int i = min q (numTiles H - 1)" using q(3) n1 by (simp add: i_def)
  have "int i < numTiles H" using i by simp
  moreover have "offsetY i \<le> int y" using i q(1) by (simp add: offsetY_eq min_def split: if_splits)
  moreover have "int y < offsetY i + currentTileHeight H i"
    using i q(2) b assms by (simp add: offsetY_eq currentTileHeight_eq min_def algebra_simps split: if_splits)
  ultimately show ?thesis by blast
qed

text \<open>
  Claim C5. For every full image height \<open>H\<close>, with tile height 1536 and overlap 150:
  the tile count is 1 when \<open>H \<le> 1536\<close> and \<open>ceil((H - 150) / 1386)\<close> otherwise; tile \<open>i\<close>
  has offset \<open>i * 1386\<close> and height \<open>min(1536, H - offset)\<close>; every row of \<open>[0, H)\<close> lies
  in a tile and every tile lies in \<open>[0, H]\<close>; every tile but the last is 1536 rows
  high and shares exactly 150 rows with its successor; the last tile ends at \<open>H\<close>
  and may be shorter.
\<close>

theorem partitioner_tiles:
  "(int H \<le> 1536 \<longrightarrow> numTiles H = 1)
   \<and> (1536 < int H \<longrightarrow> numTiles H = \<lceil>(real H - 150) / 1386\<rceil>)
   \<and> (\<forall>i. offsetY i = int i * 1386
          \<and> currentTileHeight H i = min 1536 (int H - offsetY i))
   \<and> (\<forall>y. y < H \<longrightarrow>
          (\<exists>i. int i < numTiles H \<and> offsetY i \<le> int y
             \<and> int y < offsetY i + currentTileHeight H i))
   \<and> (\<forall>i. int i < numTiles H \<longrightarrow>
          0 \<le> offsetY i \<and> 0 \<le> currentTileHeight H i
          \<and> offsetY i + currentTileHeight H i \<le> int H)
   \<and> (\<forall>i. int i + 1 < numTiles H \<longrightarrow>
          currentTileHeight H i = 1536
          \<and> (offsetY i + currentTileHeight H i) - offsetY (i + 1) = 150
          \<and> 150 < currentTileHeight H (i + 1))
   \<and> (\<forall>i. int i + 1 = numTiles H \<longrightarrow>
          offsetY i + currentTileHeight H i = int H \<and> currentTileHeight H i \<le> 1536)"
proof (intro conjI allI impI)
  fix i
  show "offsetY i = int i * 1386" by (rule offsetY_eq)
  show "currentTileHeight H i = min 1536 (int H - offsetY i)"
    by (simp add: currentTileHeight_eq offsetY_eq)
  show "currentTileHeight H i \<le> 1536" by (simp add: currentTileHeight_eq)
next
  fix i assume a: "int i + 1 < numTiles H"
  show "currentTileHeight H i = 1536" using a by (rule tile_full(1))
  show "150 < currentTileHeight H (i + 1)" using a by (rule tile_full(2))
  show "(offsetY i + currentTileHeight H i) - offsetY (i + 1) = 150"
    using tile_full(1) [OF a] by (simp add: offsetY_eq)
qed (simp_all add: numTiles_small numTiles_ceiling tile_cover tile_inside tile_last)

theorem partitioner_tiles_witness:
  "numTiles 2000 = 2 \<and> offsetY 1 = 1386 \<and> currentTileHeight 2000 0 = 1536
   \<and> currentTileHeight 2000 1 = 614
   \<and> (offsetY 0 + currentTileHeight 2000 0) - offsetY 1 = 150
   \<and> offsetY 1 + currentTileHeight 2000 1 = 2000
   \<and> (\<exists>i. int i < numTiles 2000 \<and> offsetY i \<le> 1700
         \<and> 1700 < offsetY i + currentTileHeight 2000 i)"
proof -
  note t = partitioner_tiles [of 2000]
  from t have n: "numTiles 2000 = 2" by simp
  from t have o: "offsetY 0 = 0" "offsetY 1 = 1386" by simp_all
  from t o have h: "currentTileHeight 2000 0 = 1536" "currentTileHeight 2000 1 = 614"
    by simp_all
  from t have "(1700::nat) < 2000 \<longrightarrow> (\<exists>i. int i < numTiles 2000 \<and> offsetY i \<le> int 1700
         \<and> int 1700 < offsetY i + currentTileHeight 2000 i)" by blast
  then have c: "\<exists>i. int i < numTiles 2000 \<and> offsetY i \<le> 1700
         \<and> 1700 < offsetY i + currentTileHeight 2000 i" by simp
  from n o h c show ?thesis by simp
qed

lemma remap_y_double:
  assumes "0 < H" and "H < 2 ^ 53" and "0 \<le> h" and "0 \<le> off" and "off + h \<le> int H"
    and "0 \<le> ly" and "ly \<le> 1000"
  shows "remap_y (Num ly) h off H = Num (spec_remap ly h off H)
         \<and> 0 \<le> spec_remap ly h off H \<and> spec_remap ly h off H \<le> 1000"
proof -
  have H53: "int H < 2 ^ 53" using assms(2) by (simp flip: of_nat_less_iff)
  have h53: "h < 2 ^ 53" and s53: "h + off < 2 ^ 53"
    using assms(4,5) H53 by linarith+
  define a where "a = fl64 (ly / 1000)"
  have a: "to_double (ly / 1000) = Num a \<and> 0 \<le> a \<and> a \<le> of_int 1"
    unfolding a_def using assms(6,7) by (intro to_double_bounded) simp_all
  define b where "b = fl64 (a * of_int h)"
  have "a * of_int h \<le> of_int h"
    using a assms(3) mult_right_le_one_le [of "of_int h" a] by (simp add: mult.commute)
  then have b: "to_double (a * of_int h) = Num b \<and> 0 \<le> b \<and> b \<le> of_int h"
    unfolding b_def using a assms(3) h53 by (intro to_double_bounded) simp_all
  define c where "c = fl64 (b + of_int off)"
  have "b + of_int off \<le> of_int (h + off)" using b by simp
  moreover have "real_of_int (h + off) \<le> of_int (int H)"
    using assms(5) by (simp only: of_int_le_iff add.commute)
  ultimately have "b + of_int off \<le> of_int (int H)" by linarith
  then have c: "to_double (b + of_int off) = Num c \<and> 0 \<le> c \<and> c \<le> of_int (int H)"
    unfolding c_def using b assms(4) H53 by (intro to_double_bounded) simp_all
  define d where "d = fl64 (c / real H)"
  have "c / real H \<le> 1" using c assms(1) by simp
  then have d: "to_double (c / real H) = Num d \<and> 0 \<le> d \<and> d \<le> of_int 1"
    unfolding d_def using c assms(1) by (intro to_double_bounded) simp_all
  define e where "e = fl64 (d * 1000)"
  have e: "to_double (d * 1000) = Num e \<and> 0 \<le> e \<and> e \<le> of_int 1000"
    unfolding e_def using d by (intro to_double_bounded) simp_all
  have s: "spec_remap ly h off H = e"
    by (simp add: spec_remap_def a_def b_def c_def d_def e_def)
  have "remap_y (Num ly) h off H = Num e"
    using assms(1) a b c d e by (simp add: remap_y_def)
  then show ?thesis using e s by simp
qed

lemma remap_y_edges:
  assumes "0 < H" and "H < 2 ^ 53"
  shows "remap_y (Num 0) (int H) 0 H = Num 0 \<and> remap_y (Num 1000) (int H) 0 H = Num 1000"
  using assms by (simp add: remap_y_def to_double_of_nat)

lemma to_double_three_quarters [simp]: "to_double (3 / 4) = Num (3 / 4)"
  using to_double_dyadic [of 3 2] by simp

lemma remap_y_example: "remap_y (Num 1000) 1000 500 2000 = Num 750"
  by (simp add: remap_y_def)


text \<open>
  Claim C6, amended. For a full height \<open>H\<close> with \<open>0 < H < 2\<^sup>5\<^sup>3\<close>, a tile of the
  Partitioner and a local \<open>y\<close> in \<open>[0, 1000]\<close>, the remapped \<open>y\<close> is
  \<open>((y / 1000 * h) + offset) / H * 1000\<close> evaluated in double arithmetic and lies in
  \<open>[0, 1000]\<close>; the \<open>x\<close> components pass through unchanged; with offset 0 and \<open>h = H\<close>
  the edges \<open>y = 0\<close> and \<open>y = 1000\<close> map to themselves; and local \<open>y = 1000\<close> with offset
  500, \<open>h = 1000\<close>, \<open>H = 2000\<close> maps to 750.
\<close>

theorem remap_within_bounds:
  assumes "0 < H" and "H < 2 ^ 53" and "int i < numTiles H" and "0 \<le> ly" and "ly \<le> 1000"
  shows "remap_y (Num ly) (currentTileHeight H i) (offsetY i) H
           = Num (spec_remap ly (currentTileHeight H i) (offsetY i) H)
         \<and> 0 \<le> spec_remap ly (currentTileHeight H i) (offsetY i) H
         \<and> spec_remap ly (currentTileHeight H i) (offsetY i) H \<le> 1000
         \<and> remap_box [Num ly, x1, Num ly', x2] (currentTileHeight H i) (offsetY i) H
             = [remap_y (Num ly) (currentTileHeight H i) (offsetY i) H, x1,
                remap_y (Num ly') (currentTileHeight H i) (offsetY i) H, x2]
         \<and> remap_y (Num 0) (int H) 0 H = Num 0
         \<and> remap_y (Num 1000) (int H) 0 H = Num 1000
         \<and> remap_y (Num 1000) 1000 500 2000 = Num 750"
proof -
  note t = tile_inside [OF assms(3)]
  note r = remap_y_double [OF assms(1,2) t(2) t(1) t(3) assms(4,5)]
  have b: "remap_box [Num ly, x1, Num ly', x2] (currentTileHeight H i) (offsetY i) H
             = [remap_y (Num ly) (currentTileHeight H i) (offsetY i) H, x1,
                remap_y (Num ly') (currentTileHeight H i) (offsetY i) H, x2]"
    by (simp add: remap_box_def component_def)
  from r b remap_y_edges [OF assms(1,2)] remap_y_example show ?thesis by blast
qed

theorem remap_within_bounds_witness:
  "int 0 < numTiles 2048
   \<and> currentTileHeight 2048 0 = 1536 \<and> offsetY 0 = 0
   \<and> remap_y (Num 1000) (currentTileHeight 2048 0) (offsetY 0) 2048 = Num 750
   \<and> spec_remap 1000 1536 0 2048 = 750
   \<and> remap_y (Num 1000) 2048 0 2048 = Num 1000"
proof -
  have n: "int 0 < numTiles 2048" by (simp add: numTiles_ceiling)
  have h: "currentTileHeight 2048 0 = 1536" "offsetY 0 = 0"
    by (simp_all add: currentTileHeight_eq offsetY_eq)
  have v: "remap_y (Num 1000) 1536 0 2048 = Num 750"
    by (simp add: remap_y_def)
  from remap_within_bounds [of 2048 0 1000, OF _ _ n] n h v
  show ?thesis by simp
qed

text \<open>
  The four roundings of \<open>31 / 1000 * 1080 / 1080 * 1000\<close>.
\<close>

lemma fl64_step1: "fl64 (31 / 1000) = 8935141660703064 / 2 ^ 58"
  using fl64_binade [of "- 6" "31 / 1000"] by (simp add: rne_def)

lemma fl64_step2: "fl64 (8935141660703064 / 2 ^ 58 * 1080) = 4711891110136381 / 2 ^ 47"
  using fl64_binade [of 5 "8935141660703064 / 2 ^ 58 * 1080"] by (simp add: rne_def)

lemma fl64_step3: "fl64 (4711891110136381 / 2 ^ 47 / 1080) = 8935141660703063 / 2 ^ 58"
  using fl64_binade [of "- 6" "4711891110136381 / 2 ^ 47 / 1080"] by (simp add: rne_def)

lemma fl64_step4: "fl64 (8935141660703063 / 2 ^ 58 * 1000) = 8725724278030335 / 2 ^ 48"
  using fl64_binade [of 4 "8935141660703063 / 2 ^ 58 * 1000"] by (simp add: rne_def)

lemma to_double_eq: "fl64 x = y \<Longrightarrow> \<bar>y\<bar> < 2 ^ 53 \<Longrightarrow> to_double x = Num y"
  using to_double_small [of x] by simp

lemma js_div_finite: "b \<noteq> 0 \<Longrightarrow> js_div (Num a) (Num b) = to_double (a / b)"
  by simp

lemma to_double_half [simp]: "to_double (1 / 2) = Num (1 / 2)"
  using to_double_dyadic [of 1 1] by simp

lemma remap_y_31: "remap_y (Num 31) 1080 0 1080 = Num (8725724278030335 / 2 ^ 48)"
proof -
  have "js_div (Num 31) (Num 1000) = to_double (31 / 1000)"
    by (rule js_div_finite) simp
  also have "\<dots> = Num (8935141660703064 / 2 ^ 58)"
    by (rule to_double_eq [OF fl64_step1]) simp
  finally have a: "js_div (Num 31) (Num 1000) = Num (8935141660703064 / 2 ^ 58)" .
  have "js_mul (Num (8935141660703064 / 2 ^ 58)) (Num 1080)
      = to_double (8935141660703064 / 2 ^ 58 * 1080)"
    by (simp only: js_mul.simps)
  also have "\<dots> = Num (4711891110136381 / 2 ^ 47)"
    by (rule to_double_eq [OF fl64_step2]) simp
  finally have b: "js_mul (Num (8935141660703064 / 2 ^ 58)) (Num 1080)
      = Num (4711891110136381 / 2 ^ 47)" .
  have c: "js_add (Num (4711891110136381 / 2 ^ 47)) (Num 0) = Num (4711891110136381 / 2 ^ 47)"
    using to_double_dyadic [of 4711891110136381 47] by simp
  have "js_div (Num (4711891110136381 / 2 ^ 47)) (Num 1080)
      = to_double (4711891110136381 / 2 ^ 47 / 1080)"
    by (rule js_div_finite) simp
  also have "\<dots> = Num (8935141660703063 / 2 ^ 58)"
    by (rule to_double_eq [OF fl64_step3]) simp
  finally have d: "js_div (Num (4711891110136381 / 2 ^ 47)) (Num 1080)
      = Num (8935141660703063 / 2 ^ 58)" .
  have "js_mul (Num (8935141660703063 / 2 ^ 58)) (Num 1000)
      = to_double (8935141660703063 / 2 ^ 58 * 1000)"
    by (simp only: js_mul.simps)
  also have "\<dots> = Num (8725724278030335 / 2 ^ 48)"
    by (rule to_double_eq [OF fl64_step4]) simp
  finally have e: "js_mul (Num (8935141660703063 / 2 ^ 58)) (Num 1000)
      = Num (8725724278030335 / 2 ^ 48)" .
  show ?thesis
    unfolding remap_y_def by (simp only: of_int_numeral of_int_0 of_nat_numeral a b c d e)
qed

text \<open>
  The example of the specification gives 750, not 1000; for an image of height 0
  the one tile has height 0 and the remapped coordinate is \<open>NaN\<close>; and in the single
  tile of an image of height 1080 (offset 0, \<open>h = H\<close>) the local \<open>y = 31\<close> is remapped
  to \<open>30.999999999999996\<close>, the double \<open>8725724278030335 / 2\<^sup>4\<^sup>8\<close>, not to itself: the
  quotient \<open>31 / 1000\<close> and the products are rounded.
\<close>

theorem remap_example_counterexample:
  "remap_y (Num 1000) 1000 500 2000 = Num 750
   \<and> remap_y (Num 1000) 1000 500 2000 \<noteq> Num 1000
   \<and> numTiles 0 = 1
   \<and> remap_y (Num 500) (currentTileHeight 0 0) (offsetY 0) 0 = NaN
   \<and> numTiles 1080 = 1 \<and> currentTileHeight 1080 0 = 1080 \<and> offsetY 0 = 0
   \<and> remap_y (Num 31) 1080 0 1080 = Num (8725724278030335 / 2 ^ 48)
   \<and> remap_y (Num 31) 1080 0 1080 \<noteq> Num 31"
proof -
  have a: "remap_y (Num 1000) 1000 500 2000 = Num 750" by (simp add: remap_y_def)
  have b: "numTiles 0 = 1" "numTiles 1080 = 1" by (simp_all add: numTiles_small)
  have c: "remap_y (Num 500) 0 0 0 = NaN"
    by (simp add: remap_y_def)
  have d: "currentTileHeight 1080 0 = 1080" "offsetY 0 = 0" "currentTileHeight 0 0 = 0"
    by (simp_all add: currentTileHeight_eq offsetY_eq)
  show ?thesis by (simp add: a b c d remap_y_31)
qed

section \<open>Catalog Reconciliation: properties\<close>

lemmas js_string_defs = str_simps trim_def is_ws_def toLowerCase_def lower_unit_def

lemma findIndex_found:
  "findIndex p xs = int k \<Longrightarrow> k < length xs \<and> p (xs ! k)"
proof (induction xs arbitrary: k)
  case Nil
  then show ?case by simp
next
  case (Cons x xs)
  show ?case
  proof (cases "p x")
    case True
    with Cons.prems show ?thesis by simp
  next
    case False
    with Cons.prems have f: "findIndex p xs \<noteq> -1" "findIndex p xs + 1 = int k"
      by (auto simp: Let_def split: if_splits)
    then obtain j where j: "k = Suc j" by (cases k) (auto simp: Let_def)
    with f have "findIndex p xs = int j" by simp
    from Cons.IH [OF this] j show ?thesis by simp
  qed
qed

lemma findIndex_ge: "- 1 \<le> findIndex p xs"
  by (induction xs) (auto simp: Let_def)

lemma sku1_match:
  "existing_index [(sku1 pr p cs)\<lparr>original_price := op, original_numeric_price := on,
      is_violation := v\<rparr>] (sku1 pr' p' cs') = int 0"
  by (simp add: existing_index_def existing_index_with_def sku1_def)

lemma findIndex_update:
  "k < length xs \<Longrightarrow> p y = p (xs ! k) \<Longrightarrow> findIndex p (xs[k := y]) = findIndex p xs"
proof (induction xs arbitrary: k)
  case Nil
  then show ?case by simp
next
  case (Cons x xs)
  then show ?case by (cases k) (simp_all add: Let_def)
qed

lemma existing_index_found:
  "existing_index_with lc catalog obs = int k \<Longrightarrow> k < length catalog"
  unfolding existing_index_with_def Let_def
  by (auto split: if_splits dest: findIndex_found)

lemma existing_index_ignores_flag:
  "k < length catalog \<Longrightarrow>
   existing_index_with lc (catalog[k := (catalog ! k)\<lparr>is_violation := v\<rparr>]) obs
     = existing_index_with lc catalog obs"
proof -
  assume k: "k < length catalog"
  have a: "findIndex (\<lambda>a. anchor_id a = anchor_id obs)
        (catalog[k := (catalog ! k)\<lparr>is_violation := v\<rparr>])
      = findIndex (\<lambda>a. anchor_id a = anchor_id obs) catalog"
    using k by (rule findIndex_update) simp
  have b: "findIndex (\<lambda>a. lc (trim (name a)) = lc (trim (name obs)))
        (catalog[k := (catalog ! k)\<lparr>is_violation := v\<rparr>])
      = findIndex (\<lambda>a. lc (trim (name a)) = lc (trim (name obs))) catalog"
    using k by (rule findIndex_update) simp
  show ?thesis by (simp only: existing_index_with_def a b)
qed

lemma merge_at_ignores_flag:
  "k < length catalog \<Longrightarrow>
   merge_at (int k) (catalog[k := (catalog ! k)\<lparr>is_violation := v\<rparr>]) obs
     = merge_at (int k) catalog obs"
  by (simp add: merge_at_def Let_def)

text \<open>
  Claim C2, amended. A merge of an observation that matches an anchor, whatever
  lower-casing \<open>lc\<close> the name search uses, keeps the anchor's identifier and baseline
  and computes the violation flag anew from the baseline alone: for an incoming
  numeric price \<open>p\<close> and a baseline \<open>b\<close>, both finite doubles, the merged anchor is
  flagged exactly when the absolute value of the double \<open>p - b\<close> is greater than the
  double \<open>0.01\<close>, whatever the flag was before and whatever flag the observation
  carries; a sighting at the baseline price is not flagged.
\<close>

theorem merge_recomputes_flag:
  assumes "existing_index_with lc catalog obs = int k"
    and "numeric_price obs = Some (Num p)" and "is_double p"
    and "original_numeric_price (catalog ! k) = Some (Num b)" and "is_double b"
  shows "length (merge_anchor_with lc catalog obs) = length catalog
         \<and> is_violation (merge_anchor_with lc catalog obs ! k)
             = js_gt (js_abs (js_sub (Num p) (Num b))) (Num (fl64 (1 / 100)))
         \<and> (p = b \<longrightarrow> \<not> is_violation (merge_anchor_with lc catalog obs ! k))
         \<and> merge_anchor_with lc (catalog[k := (catalog ! k)\<lparr>is_violation := v\<rparr>]) obs
             = merge_anchor_with lc catalog obs
         \<and> original_numeric_price (merge_anchor_with lc catalog obs ! k) = Some (Num b)
         \<and> anchor_id (merge_anchor_with lc catalog obs ! k) = anchor_id (catalog ! k)
         \<and> numeric_price (merge_anchor_with lc catalog obs ! k) = Some (Num p)"
proof -
  have k: "k < length catalog" using assms(1) by (rule existing_index_found)
  have e: "merge_anchor_with lc catalog obs = merge_at (int k) catalog obs"
    by (simp add: merge_anchor_with_def assms(1))
  have l: "length (merge_at (int k) catalog obs) = length catalog"
    by (simp add: merge_at_def Let_def)
  have f: "is_violation (merge_at (int k) catalog obs ! k)
             = js_gt (js_abs (js_sub (Num p) (Num b))) (Num (fl64 (1 / 100)))"
    using k assms(2,4)
    by (auto simp add: merge_at_def Let_def nullish_zero_def simp del: fl64_cent)
  have z: "js_sub (Num b) (Num b) = Num 0" by (simp add: js_sub_def)
  have r: "p = b \<longrightarrow> \<not> is_violation (merge_at (int k) catalog obs ! k)"
    unfolding f by (simp add: z)
  have i: "merge_anchor_with lc (catalog[k := (catalog ! k)\<lparr>is_violation := v\<rparr>]) obs
             = merge_at (int k) catalog obs"
    using k assms(1)
    by (simp add: merge_anchor_with_def existing_index_ignores_flag merge_at_ignores_flag)
  have o: "original_numeric_price (merge_at (int k) catalog obs ! k) = Some (Num b)"
    "anchor_id (merge_at (int k) catalog obs ! k) = anchor_id (catalog ! k)"
    "numeric_price (merge_at (int k) catalog obs ! k) = Some (Num p)"
    using k assms(2,4) by (simp_all add: merge_at_def Let_def)
  from l f r i o show ?thesis unfolding e by blast
qed

lemma fl64_101: "fl64 (101 / 100) = 4548635623644201 / 2 ^ 52"
  using fl64_binade [of 0 "101 / 100"] by (simp add: rne_def)

lemma price_step_1_01:
  "js_sub (Num (fl64 (101 / 100))) (Num 1) = Num (45035996273705 / 2 ^ 52)"
  using to_double_dyadic [of 45035996273705 52] by (simp add: js_sub_def fl64_101)

lemma price_step_0_01:
  "js_sub (Num (fl64 (1 / 100))) (Num 0) = Num (fl64 (1 / 100))"
  using to_double_dyadic [of 5764607523034235 59] by (simp add: js_sub_def)

lemma sku1_match_with:
  "existing_index_with lc [(sku1 pr p cs)\<lparr>original_price := op, original_numeric_price := on,
      is_violation := v\<rparr>] (sku1 pr' p' cs') = int 0"
  by (simp add: existing_index_with_def sku1_def)

text \<open>
  A sighting at 12.00 of an anchor held at 10.00 is flagged; so is a sighting at
  1.01 of an anchor held at 1.00, since the doubles \<open>1.01\<close> and \<open>1\<close> differ by
  \<open>45035996273705 / 2\<^sup>5\<^sup>2\<close>, which is greater than the double \<open>0.01\<close>; a sighting at 0.01
  of an anchor held at 0 is not, whatever its flag was.
\<close>

theorem merge_recomputes_flag_witness:
  "merge_anchors [] [sku1 (str ''$10.00'') 10 box1]
     = [(sku1 (str ''$10.00'') 10 box1)\<lparr>original_price := Some (str ''$10.00''),
          original_numeric_price := Some (Num 10), is_violation := False\<rparr>]
   \<and> is_violation (merge_anchor
         [(sku1 (str ''$10.00'') 10 box1)\<lparr>original_price := Some (str ''$10.00''),
            original_numeric_price := Some (Num 10), is_violation := False\<rparr>]
         (sku1 (str ''$12.00'') 12 box1) ! 0) = True
   \<and> is_violation (merge_anchor
         [(sku1 (str ''$1.00'') 1 box1)\<lparr>original_price := Some (str ''$1.00''),
            original_numeric_price := Some (Num 1), is_violation := False\<rparr>]
         (sku1 (str ''$1.01'') (fl64 (101 / 100)) box1) ! 0) = True
   \<and> is_violation (merge_anchor
         [(sku1 (str ''$0.00'') 0 box1)\<lparr>original_price := Some (str ''$0.00''),
            original_numeric_price := Some (Num 0), is_violation := True\<rparr>]
         (sku1 (str ''$0.01'') (fl64 (1 / 100)) box1) ! 0) = False"
proof -
  let ?A = "(sku1 (str ''$10.00'') 10 box1)\<lparr>original_price := Some (str ''$10.00''),
          original_numeric_price := Some (Num 10), is_violation := False\<rparr>"
  let ?B = "(sku1 (str ''$1.00'') 1 box1)\<lparr>original_price := Some (str ''$1.00''),
            original_numeric_price := Some (Num 1), is_violation := False\<rparr>"
  let ?C = "(sku1 (str ''$0.00'') 0 box1)\<lparr>original_price := Some (str ''$0.00''),
            original_numeric_price := Some (Num 0), is_violation := True\<rparr>"
  have a: "merge_anchors [] [sku1 (str ''$10.00'') 10 box1] = [?A]"
    by (simp add: merge_anchors_def merge_anchor_def merge_anchor_with_def merge_at_def
        existing_index_with_def sku1_def)
  have n: "numeric_price (sku1 pr q box1) = Some (Num q)" for pr q
    by (simp add: sku1_def)
  have g: "js_gt (js_abs (js_sub (Num 12) (Num 10))) (Num (fl64 (1 / 100)))"
    by (simp add: js_sub_def)
  have g1: "js_gt (js_abs (js_sub (Num (fl64 (101 / 100))) (Num 1))) (Num (fl64 (1 / 100)))"
    by (simp add: price_step_1_01)
  have g2: "\<not> js_gt (js_abs (js_sub (Num (fl64 (1 / 100))) (Num 0))) (Num (fl64 (1 / 100)))"
    by (simp only: price_step_0_01) simp
  have d: "is_double 12" "is_double 10" "is_double 1" "is_double 0"
    by (simp_all add: is_double_def)
  have d1: "is_double (fl64 (101 / 100))"
    using to_double_dyadic [of 4548635623644201 52] by (simp add: is_double_def fl64_101)
  have d2: "is_double (fl64 (1 / 100))"
    using to_double_dyadic [of 5764607523034235 59] by (simp add: is_double_def)
  from merge_recomputes_flag [of toLowerCase "[?A]" "sku1 (str ''$12.00'') 12 box1" 0 12 10,
      OF sku1_match_with]
  have t1: "is_violation (merge_anchor [?A] (sku1 (str ''$12.00'') 12 box1) ! 0) = True"
    using g d by (simp add: n merge_anchor_def del: fl64_cent)
  from merge_recomputes_flag [of toLowerCase "[?B]"
      "sku1 (str ''$1.01'') (fl64 (101 / 100)) box1" 0 "fl64 (101 / 100)" 1,
      OF sku1_match_with]
  have t2: "is_violation (merge_anchor [?B] (sku1 (str ''$1.01'') (fl64 (101 / 100)) box1) ! 0)
      = True"
    using g1 d d1 by (simp add: n merge_anchor_def del: fl64_cent)
  from merge_recomputes_flag [of toLowerCase "[?C]"
      "sku1 (str ''$0.01'') (fl64 (1 / 100)) box1" 0 "fl64 (1 / 100)" 0,
      OF sku1_match_with]
  have t3: "is_violation (merge_anchor [?C] (sku1 (str ''$0.01'') (fl64 (1 / 100)) box1) ! 0)
      = False"
    using g2 d d2 by (simp add: n merge_anchor_def del: fl64_cent)
  from a t1 t2 t3 show ?thesis by (simp only: simp_thms)
qed

text \<open>
  The flag is not monotonic: \<open>sku1\<close> seen at 10.00, then at 12.00 (flagged), then at
  10.00 again is no longer flagged.
\<close>

theorem violation_flag_cleared_counterexample:
  "map is_violation
     (merge_anchors (merge_anchors [] [sku1 (str ''$10.00'') 10 box1])
        [sku1 (str ''$12.00'') 12 box1]) = [True]
   \<and> map is_violation
     (merge_anchors
        (merge_anchors (merge_anchors [] [sku1 (str ''$10.00'') 10 box1])
           [sku1 (str ''$12.00'') 12 box1])
        [sku1 (str ''$10.00'') 10 box1]) = [False]"
proof -
  let ?A0 = "(sku1 (str ''$10.00'') 10 box1)\<lparr>original_price := Some (str ''$10.00''),
          original_numeric_price := Some (Num 10), is_violation := False\<rparr>"
  let ?A1 = "(sku1 (str ''$12.00'') 12 box1)\<lparr>original_price := Some (str ''$10.00''),
          original_numeric_price := Some (Num 10), is_violation := True\<rparr>"
  let ?A2 = "(sku1 (str ''$10.00'') 10 box1)\<lparr>original_price := Some (str ''$10.00''),
          original_numeric_price := Some (Num 10), is_violation := False\<rparr>"
  have m1: "merge_anchors [] [sku1 (str ''$10.00'') 10 box1] = [?A0]"
    by (simp add: merge_anchors_def merge_anchor_def merge_anchor_with_def merge_at_def existing_index_def existing_index_with_def sku1_def)
  have m2: "merge_anchors [?A0] [sku1 (str ''$12.00'') 12 box1] = [?A1]"
    by (simp add: merge_anchors_def merge_anchor_def merge_anchor_with_def merge_at_def
        existing_index_def [symmetric] sku1_match nullish_zero_def js_sub_def
        truthy_def str_simps) (simp add: sku1_def)
  have m3: "merge_anchors [?A1] [sku1 (str ''$10.00'') 10 box1] = [?A2]"
    by (simp add: merge_anchors_def merge_anchor_def merge_anchor_with_def merge_at_def
        existing_index_def [symmetric] sku1_match nullish_zero_def js_sub_def
        truthy_def str_simps) (simp add: sku1_def)
  show ?thesis by (simp only: m1 m2 m3) simp
qed

section \<open>Analysis Client: properties\<close>

lemma analyze_loop_aborted:
  "retryCount \<le> 2 \<Longrightarrow> aborted cancelAt now \<Longrightarrow>
   analyze_loop cancelAt api previous retryCount now
     = (Inl \<lparr>err_name = str ''Error'', err_message = str ''AbortError''\<rparr>, now, [])"
  by (subst analyze_loop.simps) (simp add: maxRetries_def Let_def)

lemma analyze_loop_returns:
  "retryCount \<le> 2 \<Longrightarrow> \<not> aborted cancelAt now \<Longrightarrow>
   run_attempt previous (snd (api retryCount)) = Inr r \<Longrightarrow>
   analyze_loop cancelAt api previous retryCount now
     = (Inr r, now + fst (api retryCount), [Call now])"
  by (subst analyze_loop.simps) (simp add: maxRetries_def Let_def)

lemma analyze_loop_abort_error:
  "retryCount \<le> 2 \<Longrightarrow> \<not> aborted cancelAt now \<Longrightarrow>
   run_attempt previous (snd (api retryCount)) = Inl e \<Longrightarrow>
   err_name e = str ''AbortError'' \<Longrightarrow>
   analyze_loop cancelAt api previous retryCount now
     = (Inl e, now + fst (api retryCount), [Call now])"
  by (subst analyze_loop.simps) (simp add: maxRetries_def Let_def)

lemma analyze_loop_retry:
  "retryCount < 2 \<Longrightarrow> \<not> aborted cancelAt now \<Longrightarrow>
   run_attempt previous (snd (api retryCount)) = Inl e \<Longrightarrow>
   err_name e \<noteq> str ''AbortError'' \<Longrightarrow>
   analyze_loop cancelAt api previous retryCount now
     = (case analyze_loop cancelAt api previous (retryCount + 1)
               (now + fst (api retryCount) + (retryCount + 1) * 5000) of
          (r, t, evs) \<Rightarrow>
            (r, t, Call now # Sleep ((retryCount + 1) * 5000) (now + fst (api retryCount)) # evs))"
  by (subst analyze_loop.simps) (simp add: maxRetries_def Let_def)

lemma analyze_loop_exhausted:
  "\<not> aborted cancelAt now \<Longrightarrow>
   run_attempt previous (snd (api 2)) = Inl e \<Longrightarrow>
   err_name e \<noteq> str ''AbortError'' \<Longrightarrow>
   analyze_loop cancelAt api previous 2 now
     = (Inr (degraded_result previous), now + fst (api 2), [Call now])"
  by (subst analyze_loop.simps) (simp add: maxRetries_def Let_def)

lemma not_aborted_None: "\<not> aborted None t"
  by (simp add: aborted_def)

lemma clamp_wild: "clampCoordinates (Some wild_box) = [Num 0, Num 0, Num 1000, Num 5]"
  by (simp add: clampCoordinates_def wild_box_def clamp_unit_def js_or_zero_def)

text \<open>
  Claim C4. The coordinates of the findings are clamped and rounded, those of the
  catalog anchor observations are not: \<open>analyzeUIScreen\<close> maps \<open>clampCoordinates\<close> over
  \<open>parsed.scans\<close> only, and the merged anchors keep the boxes of the response as they
  came. For a response whose finding and whose anchor both carry the box
  \<open>[-50, NaN, 2000, 4.5]\<close>, the returned finding has \<open>[0, 0, 1000, 5]\<close> and the
  returned anchor still has \<open>[-50, NaN, 2000, 4.5]\<close>.
\<close>

theorem anchor_coordinates_not_clamped:
  "\<exists>r t evs.
     analyzeUIScreen None
       (\<lambda>attempt. (1000, response [raw_finding (Some wild_box)]
                            [sku1 (str ''$10.00'') 10 wild_box]))
       empty_signature 0 = (Inr r, t, evs)
     \<and> map coordinates (scans r) = [[Num 0, Num 0, Num 1000, Num 5]]
     \<and> map anchor_coordinates (anchors_of (thought_signature r))
         = [[Num (- 50), NaN, Num 2000, Num (9 / 2)]]"
proof -
  let ?prev = "filteredPrevious empty_signature"
  let ?out = "response [raw_finding (Some wild_box)] [sku1 (str ''$10.00'') 10 wild_box]"
  have m: "merge_anchors [] [sku1 (str ''$10.00'') 10 wild_box]
      = [(sku1 (str ''$10.00'') 10 wild_box)\<lparr>original_price := Some (str ''$10.00''),
           original_numeric_price := Some (Num 10), is_violation := False\<rparr>]"
    by (simp add: merge_anchors_def merge_anchor_def merge_anchor_with_def merge_at_def existing_index_def existing_index_with_def sku1_def)
  have p: "anchors_of ?prev = []"
    by (simp add: filteredPrevious_def empty_signature_def anchors_of_def)
  obtain r where r: "run_attempt ?prev ?out = Inr r"
    and s: "scans r = [clamp_scan (raw_finding (Some wild_box))]"
    and a: "anchors_of (thought_signature r)
        = [(sku1 (str ''$10.00'') 10 wild_box)\<lparr>original_price := Some (str ''$10.00''),
           original_numeric_price := Some (Num 10), is_violation := False\<rparr>]"
    by (simp add: run_attempt_def response_def process_response_def Let_def m anchors_of_def
        filteredPrevious_def empty_signature_def)
  have e1: "analyzeUIScreen None (\<lambda>attempt. (1000, ?out)) empty_signature 0
      = (Inr r, 0 + 1000, [Call 0])"
    using analyze_loop_returns [of 0 None 0 ?prev "\<lambda>attempt. (1000, ?out)" r]
    by (simp add: not_aborted_None r analyzeUIScreen_def)
  have e2: "map coordinates (scans r) = [[Num 0, Num 0, Num 1000, Num 5]]"
    by (simp add: s clamp_scan_def raw_finding_def clamp_wild)
  have e3: "map anchor_coordinates (anchors_of (thought_signature r))
         = [[Num (- 50), NaN, Num 2000, Num (9 / 2)]]"
    by (simp add: a sku1_def wild_box_def)
  show ?thesis by (intro exI conjI) (rule e1, rule e2, rule e3)
qed

section \<open>Orchestrator: properties\<close>

lemma cooldown_fields:
  "loopSignature (cooldown i st) = loopSignature st"
  "currentTotalScans (cooldown i st) = currentTotalScans st"
  "ui_scans (cooldown i st) = ui_scans st"
  "ui_error (cooldown i st) = ui_error st"
  "ui_viewportMeta (cooldown i st) = ui_viewportMeta st"
  "clock (cooldown i st) = (if i > 0 then clock st + 5000 else clock st)"
  "events (cooldown i st) = (if i > 0 then events st @ [Sleep 5000 (clock st)] else events st)"
  by (simp_all add: cooldown_def TILE_COOLDOWN_def)

lemma tile_loop_done:
  "\<not> int i < numTiles H \<Longrightarrow> tile_loop c api H i st = st\<lparr>ended := Done\<rparr>"
  by (subst tile_loop.simps) simp

lemma tile_loop_cancelled:
  "int i < numTiles H \<Longrightarrow> aborted c (clock st) \<Longrightarrow>
   tile_loop c api H i st = st\<lparr>ended := Cancelled\<rparr>"
  by (subst tile_loop.simps) simp

lemma tile_loop_thrown:
  "int i < numTiles H \<Longrightarrow> \<not> aborted c (clock st) \<Longrightarrow>
   analyzeUIScreen c (api i) (loopSignature st) (clock (cooldown i st)) = (Inl err, t, evs) \<Longrightarrow>
   tile_loop c api H i st =
     (if err_message err \<noteq> str ''AbortError'' then
        (cooldown i st)\<lparr>clock := t, events := events (cooldown i st) @ Tile i # evs,
          ui_error := Some (str ''Audit Failure. System Overload.''), ended := Failed\<rparr>
      else
        (cooldown i st)\<lparr>clock := t, events := events (cooldown i st) @ Tile i # evs,
          ended := Cancelled\<rparr>)"
  by (subst tile_loop.simps) (simp add: Let_def cooldown_fields(1))

lemma tile_loop_halted:
  "int i < numTiles H \<Longrightarrow> \<not> aborted c (clock st) \<Longrightarrow>
   analyzeUIScreen c (api i) (loopSignature st) (clock (cooldown i st)) = (Inr result, t, evs) \<Longrightarrow>
   truthy (error result) \<Longrightarrow>
   tile_loop c api H i st =
     (cooldown i st)\<lparr>clock := t, events := events (cooldown i st) @ Tile i # evs,
       ui_error := error result, ended := Halted\<rparr>"
  by (subst tile_loop.simps) (simp add: Let_def cooldown_fields(1))

lemma tile_loop_merged:
  "int i < numTiles H \<Longrightarrow> \<not> aborted c (clock st) \<Longrightarrow>
   analyzeUIScreen c (api i) (loopSignature st) (clock (cooldown i st)) = (Inr result, t, evs) \<Longrightarrow>
   \<not> truthy (error result) \<Longrightarrow>
   tile_loop c api H i st =
     tile_loop c api H (Suc i)
       (merge_tile ((cooldown i st)\<lparr>clock := t, events := events (cooldown i st) @ Tile i # evs\<rparr>)
          result (currentTileHeight H i) (offsetY i) H)"
  by (subst tile_loop.simps) (simp add: Let_def cooldown_fields(1))

lemma numTiles_2000: "numTiles 2000 = 2"
  by (simp add: numTiles_ceiling)

lemma merge_tile_fields:
  "ui_scans (merge_tile st r h off H) = currentTotalScans st @ tile_findings r h off H"
  "currentTotalScans (merge_tile st r h off H) = currentTotalScans st @ tile_findings r h off H"
  "loopSignature (merge_tile st r h off H) = spread (loopSignature st) (thought_signature r)"
  "clock (merge_tile st r h off H) = clock st"
  "events (merge_tile st r h off H) = events st"
  "ui_error (merge_tile st r h off H) = ui_error st"
  "finalStatus (merge_tile st r h off H) =
     (if status (viewport_meta r) = Compromised then Compromised
      else if status (viewport_meta r) = Caution \<and> finalStatus st \<noteq> Compromised then Caution
      else finalStatus st)"
  "finalAdvice (merge_tile st r h off H) =
     (if status (viewport_meta r) = Compromised then advice (viewport_meta r)
      else if status (viewport_meta r) = Caution \<and> finalStatus st \<noteq> Compromised
      then advice (viewport_meta r)
      else finalAdvice st)"
  "ui_viewportMeta (merge_tile st r h off H) =
     Some \<lparr>threat_count = length (currentTotalScans st @ tile_findings r h off H),
           status = finalStatus (merge_tile st r h off H),
           advice = finalAdvice (merge_tile st r h off H)\<rparr>"
  by (simp_all add: merge_tile_def Let_def)

lemma sku1_first_sighting:
  "merge_anchors [] [sku1 (str ''$10.00'') 10 box1] = [sku1_held (str ''$10.00'') 10 False]"
  by (simp add: merge_anchors_def merge_anchor_def merge_anchor_with_def merge_at_def existing_index_def existing_index_with_def sku1_def sku1_held_def)

lemma sku1_held_match: "existing_index [sku1_held pr p v] (sku1 pr' p' cs') = int 0"
  by (simp add: existing_index_def existing_index_with_def sku1_def sku1_held_def)

lemma sku1_second_sighting:
  "merge_anchors [sku1_held (str ''$10.00'') 10 False] [sku1 (str ''$12.00'') 12 box1]
     = [sku1_held (str ''$12.00'') 12 True]"
  by (simp add: merge_anchors_def merge_anchor_def merge_anchor_with_def merge_at_def
        existing_index_def [symmetric] sku1_held_match nullish_zero_def js_sub_def
      truthy_def str_simps) (simp add: sku1_def sku1_held_def Let_def str_simps)

lemma quiet_attempt:
  "merge_anchors (anchors_of prev) anchors = merged \<Longrightarrow>
   run_attempt prev (response [] anchors) = Inr (quiet_result merged)"
  by (simp add: run_attempt_def response_def process_response_def Let_def anchors_of_def
      calculateSafetyMetrics_def quiet_result_def)

lemma two_tile_first:
  "\<not> aborted c 0 \<Longrightarrow>
   analyzeUIScreen c (two_tile_backend 0) empty_signature 0 =
     (Inr (quiet_result [sku1_held (str ''$10.00'') 10 False]), 1000, [Call 0])"
proof -
  assume n: "\<not> aborted c 0"
  have "anchors_of (filteredPrevious empty_signature) = []"
    by (simp add: anchors_of_def filteredPrevious_def empty_signature_def)
  then have "run_attempt (filteredPrevious empty_signature) (snd (two_tile_backend 0 0))
      = Inr (quiet_result [sku1_held (str ''$10.00'') 10 False])"
    by (simp add: two_tile_backend_def quiet_attempt sku1_first_sighting)
  then show ?thesis
    using n analyze_loop_returns [of 0 c 0 "filteredPrevious empty_signature" "two_tile_backend 0"]
    by (simp add: analyzeUIScreen_def two_tile_backend_def)
qed

lemma two_tile_second:
  "\<not> aborted c t \<Longrightarrow>
   analyzeUIScreen c (two_tile_backend (Suc 0))
     (thought_signature (quiet_result [sku1_held (str ''$10.00'') 10 False])) t =
     (Inr (quiet_result [sku1_held (str ''$12.00'') 12 True]), t + 1000, [Call t])"
proof -
  assume n: "\<not> aborted c t"
  let ?prev = "filteredPrevious (thought_signature (quiet_result [sku1_held (str ''$10.00'') 10 False]))"
  have "anchors_of ?prev = [sku1_held (str ''$10.00'') 10 False]"
    by (simp add: anchors_of_def filteredPrevious_def quiet_result_def)
  then have "run_attempt ?prev (snd (two_tile_backend (Suc 0) 0))
      = Inr (quiet_result [sku1_held (str ''$12.00'') 12 True])"
    by (simp add: two_tile_backend_def quiet_attempt sku1_second_sighting)
  then show ?thesis
    using n analyze_loop_returns [of 0 c t ?prev "two_tile_backend (Suc 0)"]
    by (simp add: analyzeUIScreen_def two_tile_backend_def)
qed

lemma quiet_findings_none:
  "tile_findings (quiet_result [sku1_held pr p False]) h off H = []"
  by (simp add: tile_findings_def quiet_result_def anchors_of_def sku1_held_def)

lemma quiet_findings_synthetic:
  "tile_findings (quiet_result [sku1_held pr p True]) h off H
     = [synthetic_finding (sku1_held pr p True) h off H]"
  by (simp add: tile_findings_def quiet_result_def anchors_of_def sku1_held_def sku1_def
      box1_def js_is_zero_def)

lemma spread_quiet:
  "spread sg (thought_signature (quiet_result xs)) = thought_signature (quiet_result xs)"
  by (simp add: spread_def quiet_result_def)

lemma quiet_fields:
  "error (quiet_result xs) = None" "status (viewport_meta (quiet_result xs)) = Safe"
  by (simp_all add: quiet_result_def)

text \<open>
  Claim C1. A two-tile scan (height 2000) in a fresh session, whose backend reports
  no finding of its own, the anchor \<open>sku1\<close> at 10.00 in tile 1 and at 12.00, visible
  and with the box \<open>[100, 100, 200, 200]\<close>, in tile 2. The final finding list holds
  exactly one finding, the synthetic High \<open>BAIT-AND-SWITCH\<close> of that anchor; but the
  final Viewport Meta counts one threat with status Safe, not Compromised: the
  status of a tile is computed by \<open>calculateSafetyMetrics\<close> inside \<open>analyzeUIScreen\<close>
  from the findings of the backend alone, before \<open>handleScan\<close> adds the synthetic one.
\<close>

theorem two_tile_price_hike_status_safe:
  "ended (handleScan None two_tile_backend 2000 empty_signature [] 0) = Done
   \<and> map pattern_type (ui_scans (handleScan None two_tile_backend 2000 empty_signature [] 0))
       = [str ''BAIT-AND-SWITCH'']
   \<and> map severity (ui_scans (handleScan None two_tile_backend 2000 empty_signature [] 0))
       = [High]
   \<and> map truth_label (ui_scans (handleScan None two_tile_backend 2000 empty_signature [] 0))
       = [str ''Plan: Price hiked since session start.'']
   \<and> ui_viewportMeta (handleScan None two_tile_backend 2000 empty_signature [] 0)
       = Some \<lparr>threat_count = 1, status = Safe,
               advice = str ''Interface appears transparent. Safe to proceed.''\<rparr>"
proof -
  let ?s0 = "initial_state empty_signature [] 0"
  let ?r0 = "quiet_result [sku1_held (str ''$10.00'') 10 False]"
  let ?r1 = "quiet_result [sku1_held (str ''$12.00'') 12 True]"
  let ?c0 = "?s0\<lparr>clock := 1000, events := [Tile 0, Call 0]\<rparr>"
  let ?s1 = "merge_tile ?c0 ?r0 1536 0 2000"
  let ?c1 = "?s1\<lparr>clock := 7000,
      events := [Tile 0, Call 0, Sleep 5000 1000, Tile (Suc 0), Call 6000]\<rparr>"
  let ?s2 = "merge_tile ?c1 ?r1 614 1386 2000"
  have na: "\<And>t. \<not> aborted None t" by (simp add: aborted_def)
  have i0: "loopSignature ?s0 = empty_signature" "clock ?s0 = 0" "events ?s0 = []"
    "currentTotalScans ?s0 = []" "finalStatus ?s0 = Safe"
    "finalAdvice ?s0 = str ''Interface appears transparent. Safe to proceed.''"
    by (simp_all add: initial_state_def)
  have step0: "tile_loop None two_tile_backend 2000 0 ?s0
      = tile_loop None two_tile_backend 2000 (Suc 0) ?s1"
    using tile_loop_merged [of 0 2000 None ?s0 two_tile_backend ?r0 1000 "[Call 0]"]
    by (simp add: numTiles_2000 na i0 two_tile_first quiet_fields truthy_def cooldown_def
        currentTileHeight_eq offsetY_eq)
  have i1: "loopSignature ?s1 = thought_signature ?r0" "clock ?s1 = 1000"
    "events ?s1 = [Tile 0, Call 0]" "currentTotalScans ?s1 = []" "finalStatus ?s1 = Safe"
    "finalAdvice ?s1 = str ''Interface appears transparent. Safe to proceed.''"
    by (simp_all add: merge_tile_fields spread_quiet quiet_findings_none quiet_fields i0)
  have step1: "tile_loop None two_tile_backend 2000 (Suc 0) ?s1
      = tile_loop None two_tile_backend 2000 (Suc (Suc 0)) ?s2"
    using tile_loop_merged [of "Suc 0" 2000 None ?s1 two_tile_backend ?r1 7000 "[Call 6000]"]
    by (simp add: numTiles_2000 na i1 i0 two_tile_second [of None 6000] quiet_fields truthy_def
        quiet_findings_none cooldown_def TILE_COOLDOWN_def currentTileHeight_eq offsetY_eq)
  have step2: "tile_loop None two_tile_backend 2000 (Suc (Suc 0)) ?s2 = ?s2\<lparr>ended := Done\<rparr>"
    by (rule tile_loop_done) (simp add: numTiles_2000)
  have F: "handleScan None two_tile_backend 2000 empty_signature [] 0 = ?s2\<lparr>ended := Done\<rparr>"
    by (simp only: handleScan_def step0 step1 step2)
  have scans2: "ui_scans ?s2
      = [synthetic_finding (sku1_held (str ''$12.00'') 12 True) 614 1386 2000]"
    by (simp add: merge_tile_fields(1) quiet_findings_synthetic quiet_findings_none i1 i0)
  have meta2: "ui_viewportMeta ?s2
      = Some \<lparr>threat_count = 1, status = Safe,
               advice = str ''Interface appears transparent. Safe to proceed.''\<rparr>"
    by (simp add: merge_tile_fields quiet_findings_synthetic quiet_findings_none quiet_fields i1 i0)
  have r1: "ended (handleScan None two_tile_backend 2000 empty_signature [] 0) = Done"
    by (simp add: F)
  have r2: "ui_scans (handleScan None two_tile_backend 2000 empty_signature [] 0)
      = [synthetic_finding (sku1_held (str ''$12.00'') 12 True) 614 1386 2000]"
    by (simp add: F scans2)
  have r3: "ui_viewportMeta (handleScan None two_tile_backend 2000 empty_signature [] 0)
      = Some \<lparr>threat_count = 1, status = Safe,
               advice = str ''Interface appears transparent. Safe to proceed.''\<rparr>"
    by (simp add: F meta2)
  show ?thesis
    by (simp add: r1 r2 r3 synthetic_finding_def sku1_held_def sku1_def str_simps)
qed

lemma analyze_loop_three_failures:
  assumes f: "\<forall>k. k \<le> 2 \<longrightarrow>
      (\<exists>e'. run_attempt prev (snd (api k)) = Inl e' \<and> err_name e' \<noteq> str ''AbortError'')"
    and a0: "\<not> aborted c now"
    and a1: "\<not> aborted c (now + fst (api 0) + 5000)"
    and a2: "\<not> aborted c (now + fst (api 0) + 5000 + fst (api 1) + 10000)"
  shows "analyze_loop c api prev 0 now
     = (Inr (degraded_result prev),
        now + fst (api 0) + 5000 + fst (api 1) + 10000 + fst (api 2),
        [Call now, Sleep 5000 (now + fst (api 0)), Call (now + fst (api 0) + 5000),
         Sleep 10000 (now + fst (api 0) + 5000 + fst (api 1)),
         Call (now + fst (api 0) + 5000 + fst (api 1) + 10000)])"
proof -
  from f obtain e0 e1 e2 where
    e0: "run_attempt prev (snd (api 0)) = Inl e0" "err_name e0 \<noteq> str ''AbortError''" and
    e1: "run_attempt prev (snd (api 1)) = Inl e1" "err_name e1 \<noteq> str ''AbortError''" and
    e2: "run_attempt prev (snd (api 2)) = Inl e2" "err_name e2 \<noteq> str ''AbortError''"
    by (metis one_le_numeral order_refl zero_le)
  have l2: "analyze_loop c api prev 2 (now + fst (api 0) + 5000 + fst (api 1) + 10000)
      = (Inr (degraded_result prev),
         now + fst (api 0) + 5000 + fst (api 1) + 10000 + fst (api 2),
         [Call (now + fst (api 0) + 5000 + fst (api 1) + 10000)])"
    using a2 e2 by (rule analyze_loop_exhausted)
  have l1: "analyze_loop c api prev 1 (now + fst (api 0) + 5000)
      = (Inr (degraded_result prev),
         now + fst (api 0) + 5000 + fst (api 1) + 10000 + fst (api 2),
         [Call (now + fst (api 0) + 5000), Sleep 10000 (now + fst (api 0) + 5000 + fst (api 1)),
          Call (now + fst (api 0) + 5000 + fst (api 1) + 10000)])"
    using analyze_loop_retry [of 1 c "now + fst (api 0) + 5000" prev api e1] a1 e1 l2
    by (simp add: numeral_2_eq_2)
  show ?thesis
    using analyze_loop_retry [of 0 c now prev api e0] a0 e0 l1 by simp
qed

text \<open>
  Claim C3. In the retry loop of \<open>analyzeUIScreen\<close>: a signal already aborted before an
  attempt throws at once, with no call and no retry; an error named \<open>AbortError\<close>
  during an attempt is thrown on, not retried; any other failure of attempt
  \<open>retryCount < 2\<close> is followed by a sleep of \<open>(retryCount + 1) * 5000\<close> ms and the next
  attempt; three such failures in a row give three calls, sleeps of 5 s and 10 s, and
  a returned (not thrown) degraded result with no findings, status Caution and an
  error marker. On a result with an error marker \<open>handleScan\<close> stops the tile loop and
  keeps the findings accumulated so far; on a thrown error it stops as well, as
  cancelled when the message is \<open>AbortError\<close>.
\<close>

theorem retry_then_degrade:
  "(retryCount \<le> 2 \<and> aborted c now \<longrightarrow>
      analyze_loop c api prev retryCount now
        = (Inl \<lparr>err_name = str ''Error'', err_message = str ''AbortError''\<rparr>, now, []))
   \<and> (retryCount \<le> 2 \<and> \<not> aborted c now
        \<and> run_attempt prev (snd (api retryCount)) = Inl e
        \<and> err_name e = str ''AbortError'' \<longrightarrow>
      analyze_loop c api prev retryCount now = (Inl e, now + fst (api retryCount), [Call now]))
   \<and> (retryCount < 2 \<and> \<not> aborted c now
        \<and> run_attempt prev (snd (api retryCount)) = Inl e
        \<and> err_name e \<noteq> str ''AbortError'' \<longrightarrow>
      analyze_loop c api prev retryCount now
        = (case analyze_loop c api prev (retryCount + 1)
                  (now + fst (api retryCount) + (retryCount + 1) * 5000) of
             (r, t, evs) \<Rightarrow>
               (r, t, Call now # Sleep ((retryCount + 1) * 5000) (now + fst (api retryCount))
                        # evs)))
   \<and> ((\<forall>k. k \<le> 2 \<longrightarrow>
          (\<exists>e'. run_attempt (filteredPrevious sg) (snd (api k)) = Inl e'
                 \<and> err_name e' \<noteq> str ''AbortError''))
        \<and> \<not> aborted c now \<and> \<not> aborted c (now + fst (api 0) + 5000)
        \<and> \<not> aborted c (now + fst (api 0) + 5000 + fst (api 1) + 10000) \<longrightarrow>
      analyzeUIScreen c api sg now
        = (Inr (degraded_result (filteredPrevious sg)),
           now + fst (api 0) + 5000 + fst (api 1) + 10000 + fst (api 2),
           [Call now, Sleep 5000 (now + fst (api 0)), Call (now + fst (api 0) + 5000),
            Sleep 10000 (now + fst (api 0) + 5000 + fst (api 1)),
            Call (now + fst (api 0) + 5000 + fst (api 1) + 10000)]))
   \<and> scans (degraded_result prev) = []
   \<and> status (viewport_meta (degraded_result prev)) = Caution
   \<and> truthy (error (degraded_result prev))
   \<and> (int i < numTiles H \<and> \<not> aborted c (clock st)
        \<and> analyzeUIScreen c (tiles i) (loopSignature st) (clock (cooldown i st))
            = (Inr result, t, evs)
        \<and> truthy (error result) \<longrightarrow>
      ended (tile_loop c tiles H i st) = Halted
      \<and> ui_scans (tile_loop c tiles H i st) = ui_scans st
      \<and> currentTotalScans (tile_loop c tiles H i st) = currentTotalScans st
      \<and> ui_error (tile_loop c tiles H i st) = error result
      \<and> events (tile_loop c tiles H i st) = events (cooldown i st) @ Tile i # evs)
   \<and> (int i < numTiles H \<and> \<not> aborted c (clock st)
        \<and> analyzeUIScreen c (tiles i) (loopSignature st) (clock (cooldown i st))
            = (Inl err, t, evs) \<longrightarrow>
      ended (tile_loop c tiles H i st)
        = (if err_message err = str ''AbortError'' then Cancelled else Failed)
      \<and> ui_scans (tile_loop c tiles H i st) = ui_scans st
      \<and> events (tile_loop c tiles H i st) = events (cooldown i st) @ Tile i # evs)"
proof (intro conjI impI)
  show "scans (degraded_result prev) = []"
    and "status (viewport_meta (degraded_result prev)) = Caution"
    and "truthy (error (degraded_result prev))"
    by (simp_all add: degraded_result_def truthy_def str_simps)
next
  assume "retryCount \<le> 2 \<and> aborted c now"
  then show "analyze_loop c api prev retryCount now
        = (Inl \<lparr>err_name = str ''Error'', err_message = str ''AbortError''\<rparr>, now, [])"
    by (simp add: analyze_loop_aborted)
next
  assume "retryCount \<le> 2 \<and> \<not> aborted c now
        \<and> run_attempt prev (snd (api retryCount)) = Inl e
        \<and> err_name e = str ''AbortError''"
  then show "analyze_loop c api prev retryCount now
      = (Inl e, now + fst (api retryCount), [Call now])"
    by (simp add: analyze_loop_abort_error)
next
  assume "retryCount < 2 \<and> \<not> aborted c now
        \<and> run_attempt prev (snd (api retryCount)) = Inl e
        \<and> err_name e \<noteq> str ''AbortError''"
  then show "analyze_loop c api prev retryCount now
        = (case analyze_loop c api prev (retryCount + 1)
                  (now + fst (api retryCount) + (retryCount + 1) * 5000) of
             (r, t, evs) \<Rightarrow>
               (r, t, Call now # Sleep ((retryCount + 1) * 5000) (now + fst (api retryCount))
                        # evs))"
    using analyze_loop_retry [of retryCount c now prev api e] by blast
next
  assume "(\<forall>k. k \<le> 2 \<longrightarrow>
          (\<exists>e'. run_attempt (filteredPrevious sg) (snd (api k)) = Inl e'
                 \<and> err_name e' \<noteq> str ''AbortError''))
        \<and> \<not> aborted c now \<and> \<not> aborted c (now + fst (api 0) + 5000)
        \<and> \<not> aborted c (now + fst (api 0) + 5000 + fst (api 1) + 10000)"
  then show "analyzeUIScreen c api sg now
        = (Inr (degraded_result (filteredPrevious sg)),
           now + fst (api 0) + 5000 + fst (api 1) + 10000 + fst (api 2),
           [Call now, Sleep 5000 (now + fst (api 0)), Call (now + fst (api 0) + 5000),
            Sleep 10000 (now + fst (api 0) + 5000 + fst (api 1)),
            Call (now + fst (api 0) + 5000 + fst (api 1) + 10000)])"
    unfolding analyzeUIScreen_def using analyze_loop_three_failures by blast
next
  assume h: "int i < numTiles H \<and> \<not> aborted c (clock st)
        \<and> analyzeUIScreen c (tiles i) (loopSignature st) (clock (cooldown i st))
            = (Inr result, t, evs)
        \<and> truthy (error result)"
  then have "tile_loop c tiles H i st =
     (cooldown i st)\<lparr>clock := t, events := events (cooldown i st) @ Tile i # evs,
       ui_error := error result, ended := Halted\<rparr>"
    using tile_loop_halted by blast
  then show "ended (tile_loop c tiles H i st) = Halted"
    and "ui_scans (tile_loop c tiles H i st) = ui_scans st"
    and "currentTotalScans (tile_loop c tiles H i st) = currentTotalScans st"
    and "ui_error (tile_loop c tiles H i st) = error result"
    and "events (tile_loop c tiles H i st) = events (cooldown i st) @ Tile i # evs"
    by (simp_all add: cooldown_fields)
next
  assume h: "int i < numTiles H \<and> \<not> aborted c (clock st)
        \<and> analyzeUIScreen c (tiles i) (loopSignature st) (clock (cooldown i st))
            = (Inl err, t, evs)"
  then have "tile_loop c tiles H i st =
     (if err_message err \<noteq> str ''AbortError'' then
        (cooldown i st)\<lparr>clock := t, events := events (cooldown i st) @ Tile i # evs,
          ui_error := Some (str ''Audit Failure. System Overload.''), ended := Failed\<rparr>
      else
        (cooldown i st)\<lparr>clock := t, events := events (cooldown i st) @ Tile i # evs,
          ended := Cancelled\<rparr>)"
    using tile_loop_thrown by blast
  then show "ended (tile_loop c tiles H i st)
        = (if err_message err = str ''AbortError'' then Cancelled else Failed)"
    and "ui_scans (tile_loop c tiles H i st) = ui_scans st"
    and "events (tile_loop c tiles H i st) = events (cooldown i st) @ Tile i # evs"
    by (simp_all add: cooldown_fields)
qed

lemma not_aborted_before: "t < tc \<Longrightarrow> \<not> aborted (Some tc) t"
  by (simp add: aborted_def)

lemma aborted_from: "tc \<le> t \<Longrightarrow> aborted (Some tc) t"
  by (simp add: aborted_def)

lemma cooldown_then_cancelled:
  assumes "0 < i" and "int i < numTiles H" and "clock st < tc" and "tc \<le> clock st + 5000"
  shows "tile_loop (Some tc) tiles H i st
     = st\<lparr>clock := clock st + 5000, events := events st @ [Sleep 5000 (clock st), Tile i],
          ended := Cancelled\<rparr>"
proof -
  have n: "\<not> aborted (Some tc) (clock st)" using assms(3) by (rule not_aborted_before)
  have c: "clock (cooldown i st) = clock st + 5000" using assms(1) by (simp add: cooldown_fields)
  have "analyzeUIScreen (Some tc) (tiles i) (loopSignature st) (clock (cooldown i st))
      = (Inl \<lparr>err_name = str ''Error'', err_message = str ''AbortError''\<rparr>, clock st + 5000, [])"
    unfolding analyzeUIScreen_def c
    using assms(4) by (simp add: analyze_loop_aborted aborted_from)
  with assms(1,2) n show ?thesis
    using tile_loop_thrown [where i = i and H = H and c = "Some tc" and st = st and api = tiles
        and err = "\<lparr>err_name = str ''Error'', err_message = str ''AbortError''\<rparr>"
        and t = "clock st + 5000" and evs = "[]"]
    by (simp add: cooldown_def TILE_COOLDOWN_def)
qed

lemma backoff_then_cancelled:
  assumes "retryCount < 2"
    and "run_attempt prev (snd (api retryCount)) = Inl e"
    and "err_name e \<noteq> str ''AbortError''"
    and "now + fst (api retryCount) < tc"
    and "tc \<le> now + fst (api retryCount) + (retryCount + 1) * 5000"
  shows "analyze_loop (Some tc) api prev retryCount now
     = (Inl \<lparr>err_name = str ''Error'', err_message = str ''AbortError''\<rparr>,
        now + fst (api retryCount) + (retryCount + 1) * 5000,
        [Call now, Sleep ((retryCount + 1) * 5000) (now + fst (api retryCount))])"
proof -
  have n: "\<not> aborted (Some tc) now" using assms(4) by (simp add: aborted_def)
  have a: "aborted (Some tc) (now + fst (api retryCount) + (retryCount + 1) * 5000)"
    using assms(5) by (rule aborted_from)
  have "analyze_loop (Some tc) api prev (retryCount + 1)
          (now + fst (api retryCount) + (retryCount + 1) * 5000)
      = (Inl \<lparr>err_name = str ''Error'', err_message = str ''AbortError''\<rparr>,
         now + fst (api retryCount) + (retryCount + 1) * 5000, [])"
    using assms(1) a by (simp add: analyze_loop_aborted)
  with assms(1,2,3) n show ?thesis
    using analyze_loop_retry [where retryCount = retryCount and cancelAt = "Some tc"
        and now = now and previous = prev and api = api and e = e]
    by simp
qed

text \<open>
  Claim C9, amended. A cancellation requested while the cooldown before tile \<open>i > 0\<close>
  is pending does not end the wait: the run goes on to the end of the 5000 ms, reaches
  tile \<open>i\<close>, and stops there as cancelled without a backend call. A cancellation
  requested during a retry backoff does not end it either: \<open>analyzeUIScreen\<close> throws
  only when the backoff has run its \<open>(retryCount + 1) * 5000\<close> ms, before the next
  attempt.
\<close>

theorem waits_run_to_their_end:
  "(0 < i \<and> int i < numTiles H \<and> clock st < tc \<and> tc \<le> clock st + 5000 \<longrightarrow>
      tile_loop (Some tc) tiles H i st
        = st\<lparr>clock := clock st + 5000, events := events st @ [Sleep 5000 (clock st), Tile i],
             ended := Cancelled\<rparr>)
   \<and> (retryCount < 2 \<and> run_attempt prev (snd (api retryCount)) = Inl e
        \<and> err_name e \<noteq> str ''AbortError''
        \<and> now + fst (api retryCount) < tc
        \<and> tc \<le> now + fst (api retryCount) + (retryCount + 1) * 5000 \<longrightarrow>
      analyze_loop (Some tc) api prev retryCount now
        = (Inl \<lparr>err_name = str ''Error'', err_message = str ''AbortError''\<rparr>,
           now + fst (api retryCount) + (retryCount + 1) * 5000,
           [Call now, Sleep ((retryCount + 1) * 5000) (now + fst (api retryCount))]))"
  using cooldown_then_cancelled backoff_then_cancelled by blast

lemma rate_limited_attempt:
  "run_attempt prev (snd (second_tile_fails (Suc 0) k)) = Inl rate_limited"
  "err_name rate_limited \<noteq> str ''AbortError''"
  "fst (second_tile_fails tile k) = 1000"
  by (simp_all add: run_attempt_def second_tile_fails_def rate_limited_def str_simps)

theorem waits_run_to_their_end_witness:
  "tile_loop (Some 2000) two_tile_backend 2000 (Suc 0) (initial_state empty_signature [] 1000)
     = (initial_state empty_signature [] 1000)\<lparr>clock := 6000,
          events := [Sleep 5000 1000, Tile (Suc 0)], ended := Cancelled\<rparr>
   \<and> analyze_loop (Some 1500) (second_tile_fails (Suc 0)) (filteredPrevious empty_signature) 0 0
     = (Inl \<lparr>err_name = str ''Error'', err_message = str ''AbortError''\<rparr>, 6000,
        [Call 0, Sleep 5000 1000])"
proof -
  note T = waits_run_to_their_end [where i = "Suc 0" and H = 2000 and tc = 2000
      and st = "initial_state empty_signature [] 1000" and tiles = two_tile_backend]
  have i: "clock (initial_state empty_signature [] 1000) = 1000"
    "events (initial_state empty_signature [] 1000) = []"
    by (simp_all add: initial_state_def)
  from T have a: "tile_loop (Some 2000) two_tile_backend 2000 (Suc 0)
        (initial_state empty_signature [] 1000)
     = (initial_state empty_signature [] 1000)\<lparr>clock := 6000,
          events := [Sleep 5000 1000, Tile (Suc 0)], ended := Cancelled\<rparr>"
    by (simp add: numTiles_2000 i)
  note U = waits_run_to_their_end [where retryCount = 0 and tc = 1500 and now = 0
      and api = "second_tile_fails (Suc 0)" and prev = "filteredPrevious empty_signature"
      and e = rate_limited]
  from U have b: "analyze_loop (Some 1500) (second_tile_fails (Suc 0))
        (filteredPrevious empty_signature) 0 0
     = (Inl \<lparr>err_name = str ''Error'', err_message = str ''AbortError''\<rparr>, 6000,
        [Call 0, Sleep 5000 1000])"
    by (simp add: rate_limited_attempt)
  from a b show ?thesis by blast
qed

text \<open>
  Two tiles, each call taking a second, cancellation at 2000 ms, in the middle of the
  cooldown that runs from 1000 to 6000: the run ends at 6000, not at 2000. A failing
  first attempt and cancellation at 1500 ms, in the backoff from 1000 to 6000: the
  call throws at 6000.
\<close>

theorem cooldown_outlasts_cancel_counterexample:
  "clock (handleScan (Some 2000) two_tile_backend 2000 empty_signature [] 0) = 6000
   \<and> ended (handleScan (Some 2000) two_tile_backend 2000 empty_signature [] 0) = Cancelled
   \<and> events (handleScan (Some 2000) two_tile_backend 2000 empty_signature [] 0)
       = [Tile 0, Call 0, Sleep 5000 1000, Tile (Suc 0)]
   \<and> analyzeUIScreen (Some 1500) (second_tile_fails (Suc 0)) empty_signature 0
       = (Inl \<lparr>err_name = str ''Error'', err_message = str ''AbortError''\<rparr>, 6000,
          [Call 0, Sleep 5000 1000])"
proof -
  let ?s0 = "initial_state empty_signature [] 0"
  let ?r0 = "quiet_result [sku1_held (str ''$10.00'') 10 False]"
  let ?s1 = "merge_tile (?s0\<lparr>clock := 1000, events := [Tile 0, Call 0]\<rparr>) ?r0 1536 0 2000"
  have na: "\<not> aborted (Some 2000) 0" by (simp add: aborted_def)
  have i0: "loopSignature ?s0 = empty_signature" "clock ?s0 = 0" "events ?s0 = []"
    by (simp_all add: initial_state_def)
  have step0: "tile_loop (Some 2000) two_tile_backend 2000 0 ?s0
      = tile_loop (Some 2000) two_tile_backend 2000 (Suc 0) ?s1"
    using tile_loop_merged [of 0 2000 "Some 2000" ?s0 two_tile_backend ?r0 1000 "[Call 0]"]
    by (simp add: numTiles_2000 na i0 two_tile_first quiet_fields truthy_def cooldown_def
        currentTileHeight_eq offsetY_eq)
  have i1: "clock ?s1 = 1000" "events ?s1 = [Tile 0, Call 0]"
    by (simp_all add: merge_tile_fields)
  have step1: "tile_loop (Some 2000) two_tile_backend 2000 (Suc 0) ?s1
      = ?s1\<lparr>clock := 6000, events := [Tile 0, Call 0, Sleep 5000 1000, Tile (Suc 0)],
            ended := Cancelled\<rparr>"
    using cooldown_then_cancelled [of "Suc 0" 2000 ?s1 2000 two_tile_backend]
    by (simp add: numTiles_2000 i1)
  have F: "handleScan (Some 2000) two_tile_backend 2000 empty_signature [] 0
      = ?s1\<lparr>clock := 6000, events := [Tile 0, Call 0, Sleep 5000 1000, Tile (Suc 0)],
            ended := Cancelled\<rparr>"
    by (simp only: handleScan_def step0 step1)
  have b: "analyzeUIScreen (Some 1500) (second_tile_fails (Suc 0)) empty_signature 0
       = (Inl \<lparr>err_name = str ''Error'', err_message = str ''AbortError''\<rparr>, 6000,
          [Call 0, Sleep 5000 1000])"
    unfolding analyzeUIScreen_def
    using backoff_then_cancelled [of 0 "filteredPrevious empty_signature"
        "second_tile_fails (Suc 0)" rate_limited 0 1500]
    by (simp add: rate_limited_attempt)
  show ?thesis by (simp add: F b)
qed

theorem retry_then_degrade_witness:
  "ended (handleScan None second_tile_fails 2000 empty_signature [] 0) = Halted
   \<and> map pattern_type (ui_scans (handleScan None second_tile_fails 2000 empty_signature [] 0))
       = [str ''SCARCITY'']
   \<and> ui_error (handleScan None second_tile_fails 2000 empty_signature [] 0)
       = Some (str ''Neural Link Failure (Rate Limited or Busy).'')
   \<and> events (handleScan None second_tile_fails 2000 empty_signature [] 0)
       = [Tile 0, Call 0, Sleep 5000 1000, Tile (Suc 0), Call 6000, Sleep 5000 7000,
          Call 12000, Sleep 10000 13000, Call 23000]"
proof -
  let ?s0 = "initial_state empty_signature [] 0"
  have na: "\<And>t. \<not> aborted None t" by (simp add: aborted_def)
  have i0: "loopSignature ?s0 = empty_signature" "clock ?s0 = 0" "events ?s0 = []"
    "currentTotalScans ?s0 = []"
    by (simp_all add: initial_state_def)
  obtain r0 where r0: "run_attempt (filteredPrevious empty_signature)
        (snd (second_tile_fails 0 0)) = Inr r0"
    and e0: "error r0 = None"
    and f0: "map pattern_type (tile_findings r0 1536 0 2000) = [str ''SCARCITY'']"
    by (simp add: run_attempt_def second_tile_fails_def response_def process_response_def
        Let_def tile_findings_def anchors_of_def merge_anchors_def clamp_scan_def
        raw_finding_def clampCoordinates_def box1_def clamp_unit_def js_or_zero_def
        js_is_zero_def filteredPrevious_def empty_signature_def)
  let ?s1 = "merge_tile (?s0\<lparr>clock := 1000, events := [Tile 0, Call 0]\<rparr>) r0 1536 0 2000"
  have a0: "analyzeUIScreen None (second_tile_fails 0) empty_signature 0
      = (Inr r0, 1000, [Call 0])"
    using r0 analyze_loop_returns [of 0 None 0 "filteredPrevious empty_signature"
        "second_tile_fails 0" r0]
    by (simp add: analyzeUIScreen_def na rate_limited_attempt)
  have step0: "tile_loop None second_tile_fails 2000 0 ?s0
      = tile_loop None second_tile_fails 2000 (Suc 0) ?s1"
    using tile_loop_merged [of 0 2000 None ?s0 second_tile_fails r0 1000 "[Call 0]"]
    by (simp add: numTiles_2000 na i0 a0 e0 truthy_def cooldown_def
        currentTileHeight_eq offsetY_eq)
  have i1: "clock (cooldown (Suc 0) ?s1) = 6000"
    "events (cooldown (Suc 0) ?s1) = [Tile 0, Call 0, Sleep 5000 1000]"
    "map pattern_type (ui_scans ?s1) = [str ''SCARCITY'']"
    by (simp_all add: merge_tile_fields cooldown_fields i0 f0)
  let ?deg = "degraded_result (filteredPrevious (loopSignature ?s1))"
  let ?evs = "[Call 6000, Sleep 5000 7000, Call 12000, Sleep 10000 13000, Call 23000]"
  note T = retry_then_degrade [where c = None and api = "second_tile_fails (Suc 0)"
      and sg = "loopSignature ?s1" and now = 6000 and i = "Suc 0" and H = 2000 and st = ?s1
      and tiles = second_tile_fails and result = ?deg and t = 24000 and evs = ?evs
      and prev = "filteredPrevious (loopSignature ?s1)"]
  have fails: "\<forall>k. k \<le> 2 \<longrightarrow>
      (\<exists>e'. run_attempt (filteredPrevious (loopSignature ?s1))
               (snd (second_tile_fails (Suc 0) k)) = Inl e'
             \<and> err_name e' \<noteq> str ''AbortError'')"
    by (simp add: rate_limited_attempt)
  from T fails have A: "analyzeUIScreen None (second_tile_fails (Suc 0)) (loopSignature ?s1) 6000
      = (Inr ?deg, 24000, ?evs)"
    by (simp add: na rate_limited_attempt)
  from T have D: "truthy (error ?deg)"
    "error ?deg = Some (str ''Neural Link Failure (Rate Limited or Busy).'')"
    by (simp_all add: degraded_result_def)
  from T A D(1) have Hl: "ended (tile_loop None second_tile_fails 2000 (Suc 0) ?s1) = Halted
      \<and> ui_scans (tile_loop None second_tile_fails 2000 (Suc 0) ?s1) = ui_scans ?s1
      \<and> ui_error (tile_loop None second_tile_fails 2000 (Suc 0) ?s1) = error ?deg
      \<and> events (tile_loop None second_tile_fails 2000 (Suc 0) ?s1)
          = events (cooldown (Suc 0) ?s1) @ Tile (Suc 0) # ?evs"
    by (simp add: numTiles_2000 na i1(1))
  have F: "handleScan None second_tile_fails 2000 empty_signature [] 0
      = tile_loop None second_tile_fails 2000 (Suc 0) ?s1"
    by (simp only: handleScan_def step0)
  from Hl show ?thesis
    by (simp add: F i1 D(2))
qed

section \<open>Response Recovery Parser: properties\<close>

lemmas parse_fuel_numeral =
  parse_value.simps(2,3) [of "pred_numeral k", folded numeral_eq_Suc]
  parse_elements.simps(2) [of "pred_numeral k", folded numeral_eq_Suc]
  parse_members.simps(2,3) [of "pred_numeral k", folded numeral_eq_Suc]
  for k

lemmas json_defs = JSON_parse_def skip_ws_def is_json_ws_def parse_literal_def
  hex_val_def unescape_def is_digit_def digits_val_def str_simps parse_fuel_numeral
  parse_number_def Let_def

text \<open>
  \<open>indexOf\<close> and \<open>lastIndexOf\<close> give \<open>-1\<close> or the position of an occurrence.
\<close>

lemma indexOf_ge: "-1 \<le> indexOf s c"
  by (induction s) (auto simp: Let_def)

lemma indexOf_absent: "(indexOf s c = -1) = (c \<notin> set s)"
proof (induction s)
  case Nil
  show ?case by simp
next
  case (Cons x s)
  have "indexOf s c + 1 \<noteq> -1" using indexOf_ge [of s c] by linarith
  with Cons show ?case by (auto simp: Let_def)
qed

lemma lastIndexOf_ge: "-1 \<le> lastIndexOf s c"
  by (induction s) (auto simp: Let_def)

lemma lastIndexOf_absent: "(lastIndexOf s c = -1) = (c \<notin> set s)"
proof (induction s)
  case Nil
  show ?case by simp
next
  case (Cons x s)
  have "lastIndexOf s c + 1 \<noteq> -1" using lastIndexOf_ge [of s c] by linarith
  with Cons show ?case by (auto simp: Let_def)
qed

lemma indexOf_nth: "indexOf s c = int i \<Longrightarrow> i < length s \<and> s ! i = c"
proof (induction s arbitrary: i)
  case Nil
  then show ?case by simp
next
  case (Cons x s)
  show ?case
  proof (cases "x = c")
    case True
    with Cons.prems show ?thesis by simp
  next
    case False
    with Cons.prems have f: "indexOf s c \<noteq> -1" "indexOf s c + 1 = int i"
      by (auto simp: Let_def split: if_splits)
    then obtain j where j: "i = Suc j" using indexOf_ge [of s c] by (cases i) auto
    with f have "indexOf s c = int j" by simp
    from Cons.IH [OF this] j show ?thesis by simp
  qed
qed

lemma lastIndexOf_nth: "lastIndexOf s c = int j \<Longrightarrow> j < length s \<and> s ! j = c"
proof (induction s arbitrary: j)
  case Nil
  then show ?case by simp
next
  case (Cons x s)
  show ?case
  proof (cases "lastIndexOf s c = -1")
    case True
    with Cons.prems show ?thesis by (auto simp: Let_def split: if_splits)
  next
    case False
    with Cons.prems have f: "lastIndexOf s c + 1 = int j" by (simp add: Let_def)
    then obtain k where k: "j = Suc k" using lastIndexOf_ge [of s c] False by (cases j) auto
    with f have "lastIndexOf s c = int k" by simp
    from Cons.IH [OF this] k show ?thesis by simp
  qed
qed

lemma lastIndexOf_last: "s \<noteq> [] \<Longrightarrow> last s = c \<Longrightarrow> lastIndexOf s c = int (length s) - 1"
proof (induction s)
  case Nil
  then show ?case by simp
next
  case (Cons x s)
  show ?case
  proof (cases "s = []")
    case True
    with Cons.prems show ?thesis by simp
  next
    case False
    with Cons have "lastIndexOf s c = int (length s) - 1" by simp
    moreover from False have "int (length s) - 1 \<noteq> -1" by (cases s) auto
    ultimately show ?thesis by (simp add: Let_def)
  qed
qed

lemma lastIndexOf_before: "lastIndexOf s c < int k \<Longrightarrow> c \<notin> set (drop k s)"
proof (induction s arbitrary: k)
  case Nil
  then show ?case by simp
next
  case (Cons x s)
  show ?case
  proof (cases k)
    case 0
    with Cons.prems have "lastIndexOf (x # s) c = -1"
      using lastIndexOf_ge [of "x # s" c] by linarith
    then show ?thesis using 0 by (simp only: lastIndexOf_absent) simp
  next
    case (Suc k')
    show ?thesis
    proof (cases "lastIndexOf s c = -1")
      case True
      then have "c \<notin> set s" by (simp add: lastIndexOf_absent)
      then show ?thesis using Suc by (auto dest: in_set_dropD)
    next
      case False
      with Cons.prems Suc have "lastIndexOf s c < int k'" by (simp add: Let_def)
      from Cons.IH [OF this] Suc show ?thesis by simp
    qed
  qed
qed

lemma trim_id: "s \<noteq> [] \<Longrightarrow> \<not> is_ws (hd s) \<Longrightarrow> \<not> is_ws (last s) \<Longrightarrow> trim s = s"
proof -
  assume a: "s \<noteq> []" "\<not> is_ws (hd s)" "\<not> is_ws (last s)"
  then have "dropWhile is_ws s = s" by (cases s) auto
  moreover from a have "dropWhile is_ws (rev s) = rev s"
    by (cases "rev s") (auto simp: hd_rev)
  ultimately show ?thesis by (simp add: trim_def)
qed

lemma startsWith_single: "startsWith s [c] = (s \<noteq> [] \<and> hd s = c)"
  by (cases s) auto

lemma not_ws_braces: "\<not> is_ws 123" "\<not> is_ws 125"
  by (simp_all add: is_ws_def)

lemma recovered_braced:
  assumes "s \<noteq> []" "hd s = 123" "last s = 125"
  shows "recovered_text s = s"
proof -
  have t: "trim s = s" using assms by (simp add: trim_id not_ws_braces)
  have l: "lastIndexOf s 125 = int (length s) - 1" using assms by (simp add: lastIndexOf_last)
  show ?thesis using assms
    by (simp add: recovered_text_def from_first_brace_def t l startsWith_single Let_def)
qed

lemma braced_noop:
  assumes "2 \<le> length s" "hd s = 123" "last s = 125"
  shows "tryParsePartialJSON_with parse s = parse s"
proof -
  from assms(1) have ne: "s \<noteq> []" by auto
  have r: "recovered_text s = s" using ne assms(2,3) by (rule recovered_braced)
  have l: "lastIndexOf s 125 = int (length s) - 1" using ne assms(3) by (simp add: lastIndexOf_last)
  show ?thesis using assms(1)
    by (auto simp: tryParsePartialJSON_with_def r l substring_def Let_def split: option.split)
qed

lemma stripMarkdown_braced:
  assumes "indexOf raw 123 \<noteq> -1" "indexOf raw 123 < lastIndexOf raw 125"
  shows "2 \<le> length (stripMarkdown raw) \<and> hd (stripMarkdown raw) = 123
         \<and> last (stripMarkdown raw) = 125"
proof -
  have ge: "0 \<le> indexOf raw 123" using indexOf_ge [of raw 123] assms(1) by linarith
  define i where "i = nat (indexOf raw 123)"
  define j where "j = nat (lastIndexOf raw 125)"
  have i: "indexOf raw 123 = int i" using ge by (simp add: i_def)
  have j: "lastIndexOf raw 125 = int j" using ge assms(2) by (simp add: j_def)
  from i j assms(2) have ij: "i < j" by simp
  from indexOf_nth [OF i] have ri: "i < length raw" "raw ! i = 123" by simp_all
  from lastIndexOf_nth [OF j] have rj: "j < length raw" "raw ! j = 125" by simp_all
  have s: "stripMarkdown raw = take (Suc j - i) (drop i raw)"
    using i j ij assms by (simp add: stripMarkdown_def substring_def Let_def)
  have len: "length (stripMarkdown raw) = Suc j - i" using rj ij by (simp add: s)
  have "hd (stripMarkdown raw) = 123"
    using ri ij by (simp add: s hd_drop_conv_nth)
  moreover have "last (stripMarkdown raw) = 125"
  proof -
    have "stripMarkdown raw \<noteq> []" using len ij by auto
    then have "last (stripMarkdown raw) = stripMarkdown raw ! (length (stripMarkdown raw) - 1)"
      by (rule last_conv_nth)
    also have "\<dots> = raw ! j" using ij rj by (simp add: len) (simp add: s)
    finally show ?thesis using rj by simp
  qed
  ultimately show ?thesis using len ij by simp
qed

lemma recovered_no_open:
  assumes "indexOf (trim s) 123 = -1"
  shows "recovered_text s = trim s"
proof -
  from assms have n: "123 \<notin> set (trim s)" by (simp add: indexOf_absent)
  then have "\<not> startsWith (trim s) [123]" by (cases "trim s") auto
  moreover from n have "filter (\<lambda>x. x = 123) (trim s) = []" by (auto simp: filter_empty_conv)
  ultimately show ?thesis using assms
    by (simp add: recovered_text_def from_first_brace_def Let_def count_unit_def)
qed

lemma recovered_unclosed:
  assumes "indexOf (trim s) 123 = int k" "lastIndexOf (trim s) 125 < int k"
  shows "recovered_text s
           = drop k (trim s) @ replicate (nat (count_unit 123 (drop k (trim s)))) 125"
    and "0 < count_unit 123 (drop k (trim s))"
proof -
  define r where "r = drop k (trim s)"
  from indexOf_nth [OF assms(1)] have k: "k < length (trim s)" "trim s ! k = 123" by simp_all
  have rec: "from_first_brace s = r"
  proof (cases "startsWith (trim s) [123]")
    case True
    then have "indexOf (trim s) 123 = 0" by (cases "trim s") auto
    with assms(1) have "k = 0" by simp
    with True show ?thesis by (simp add: from_first_brace_def r_def)
  next
    case False
    then show ?thesis using assms(1) by (simp add: from_first_brace_def Let_def r_def)
  qed
  have hd: "r \<noteq> []" "hd r = 123" using k by (simp_all add: hd_drop_conv_nth r_def)
  have nc: "125 \<notin> set r" unfolding r_def using assms(2) by (rule lastIndexOf_before)
  then have c0: "count_unit 125 r = 0" by (auto simp: count_unit_def filter_empty_conv)
  have l: "lastIndexOf r 125 = -1" using nc by (simp add: lastIndexOf_absent)
  have "123 \<in> set r" using hd by (cases r) auto
  then have "filter (\<lambda>x. x = 123) r \<noteq> []" by (auto simp: filter_empty_conv)
  then have pos: "0 < count_unit 123 r" by (simp add: count_unit_def)
  from hd(1) have "0 < length r" by simp
  then have "lastIndexOf r 125 < int (length r) - 1" using l by simp
  then have "recovered_text s = r @ replicate (nat (count_unit 123 r)) 125"
    using pos c0 by (simp add: recovered_text_def rec Let_def)
  then show "recovered_text s
           = drop k (trim s) @ replicate (nat (count_unit 123 (drop k (trim s)))) 125"
    by (simp only: r_def)
  from pos show "0 < count_unit 123 (drop k (trim s))" by (simp only: r_def)
qed

lemma unclosed_result:
  assumes "parse s = None" "indexOf (trim s) 123 = int k" "lastIndexOf (trim s) 125 < int k"
  shows "tryParsePartialJSON_with parse s
     = parse (drop k (trim s) @ replicate (nat (count_unit 123 (drop k (trim s)))) 125)"
proof -
  define rep where
    "rep = drop k (trim s) @ replicate (nat (count_unit 123 (drop k (trim s)))) 125"
  have r: "recovered_text s = rep"
    unfolding rep_def using assms(2,3) by (rule recovered_unclosed(1))
  have n: "0 < nat (count_unit 123 (drop k (trim s)))"
    using recovered_unclosed(2) [OF assms(2,3)] by simp
  then have "rep \<noteq> []" "last rep = 125" by (auto simp: rep_def)
  then have l: "lastIndexOf rep 125 = int (length rep) - 1" by (rule lastIndexOf_last)
  have "0 < length (drop k (trim s))" using indexOf_nth [OF assms(2)] by simp
  with n have "2 \<le> length rep" by (simp add: rep_def)
  then have "tryParsePartialJSON_with parse s = parse rep" using assms(1)
    by (auto simp: tryParsePartialJSON_with_def r l substring_def Let_def split: option.split)
  then show ?thesis by (simp only: rep_def)
qed

text \<open>
  Claim C8, amended. A text that parses strictly is returned parsed. On a text that
  fails strict parsing, the recovery parser trims it, cuts it to start at its first
  opening brace, and appends closing braces equal to the excess of opening over
  closing braces only when the text does not already end with a closing brace and
  the excess is positive; if the parse of that text fails and its last closing
  brace is not at index 0, it parses the prefix ending at that brace; only when
  these fail does the failure propagate. When the stripping step has found a brace
  pair, the stripped text starts with an opening and ends with a closing brace:
  nothing is appended, the prefix is the whole text, and a failure of the strict
  parse propagates unrepaired. A text with an opening brace and no closing brace
  after it is closed with as many braces as it has opening braces from there on; a
  text with no opening brace is parsed trimmed, then cut at its last closing brace.
\<close>

theorem recovery_repairs_only_unclosed_text:
  "(parse s = Some v \<longrightarrow> tryParsePartialJSON_with parse s = Some v)
   \<and> (parse s = None \<longrightarrow>
        tryParsePartialJSON_with parse s
          = (case parse (recovered_text s) of
               Some w \<Rightarrow> Some w
             | None \<Rightarrow>
                 if 0 < lastIndexOf (recovered_text s) 125
                 then parse (take (nat (lastIndexOf (recovered_text s) 125) + 1)
                               (recovered_text s))
                 else None))
   \<and> (indexOf raw 123 \<noteq> -1 \<and> indexOf raw 123 < lastIndexOf raw 125 \<longrightarrow>
        recovered_text (stripMarkdown raw) = stripMarkdown raw
        \<and> tryParsePartialJSON_with parse (stripMarkdown raw) = parse (stripMarkdown raw))
   \<and> (parse s = None \<and> indexOf (trim s) 123 = int k \<and> lastIndexOf (trim s) 125 < int k \<longrightarrow>
        tryParsePartialJSON_with parse s
          = parse (drop k (trim s) @ replicate (nat (count_unit 123 (drop k (trim s)))) 125))
   \<and> (parse s = None \<and> indexOf (trim s) 123 = -1 \<longrightarrow>
        tryParsePartialJSON_with parse s
          = (case parse (trim s) of
               Some w \<Rightarrow> Some w
             | None \<Rightarrow>
                 if 0 < lastIndexOf (trim s) 125
                 then parse (take (nat (lastIndexOf (trim s) 125) + 1) (trim s))
                 else None))"
proof (intro conjI impI)
  assume "parse s = Some v"
  then show "tryParsePartialJSON_with parse s = Some v"
    by (simp add: tryParsePartialJSON_with_def)
next
  assume "parse s = None"
  then show "tryParsePartialJSON_with parse s
          = (case parse (recovered_text s) of
               Some w \<Rightarrow> Some w
             | None \<Rightarrow>
                 if 0 < lastIndexOf (recovered_text s) 125
                 then parse (take (nat (lastIndexOf (recovered_text s) 125) + 1)
                               (recovered_text s))
                 else None)"
    by (auto simp: tryParsePartialJSON_with_def substring_def Let_def split: option.split)
next
  assume a: "indexOf raw 123 \<noteq> -1 \<and> indexOf raw 123 < lastIndexOf raw 125"
  then have b: "2 \<le> length (stripMarkdown raw)" "hd (stripMarkdown raw) = 123"
    "last (stripMarkdown raw) = 125"
    using stripMarkdown_braced [of raw] by simp_all
  then have "stripMarkdown raw \<noteq> []" by auto
  then show "recovered_text (stripMarkdown raw) = stripMarkdown raw"
    using b(2,3) by (rule recovered_braced)
  show "tryParsePartialJSON_with parse (stripMarkdown raw) = parse (stripMarkdown raw)"
    using b by (rule braced_noop)
next
  assume "parse s = None \<and> indexOf (trim s) 123 = int k \<and> lastIndexOf (trim s) 125 < int k"
  then show "tryParsePartialJSON_with parse s
          = parse (drop k (trim s) @ replicate (nat (count_unit 123 (drop k (trim s)))) 125)"
    using unclosed_result by blast
next
  assume "parse s = None \<and> indexOf (trim s) 123 = -1"
  then show "tryParsePartialJSON_with parse s
          = (case parse (trim s) of
               Some w \<Rightarrow> Some w
             | None \<Rightarrow>
                 if 0 < lastIndexOf (trim s) 125
                 then parse (take (nat (lastIndexOf (trim s) 125) + 1) (trim s))
                 else None)"
    by (auto simp: tryParsePartialJSON_with_def recovered_no_open substring_def Let_def
        split: option.split)
qed


lemmas text_defs = str_simps trim_def is_ws_def stripMarkdown_def substring_def
  count_unit_def from_first_brace_def recovered_text_def Let_def

lemma parse_bracket_one: "JSON_parse (str ''[1]'') = Some (JArray [JNumber (Num 1)])"
  by (simp add: json_defs)

lemma parse_unclosed_member: "JSON_parse unclosed_member = None"
  by (simp add: json_defs unclosed_member_def)

lemma parse_closed_member:
  "JSON_parse (unclosed_member @ [125]) = Some (JObject [(str ''a'', JNumber (Num 1))])"
  by (simp add: json_defs unclosed_member_def)

lemma parse_unclosed_response: "JSON_parse unclosed_response = None"
  by (simp add: json_defs unclosed_response_def)

lemma parse_closed_response:
  "JSON_parse (unclosed_response @ [125])
     = Some (JObject [(str ''a'', JObject [(str ''b'', JNumber (Num 1))])])"
  by (simp add: json_defs unclosed_response_def)

lemma parse_nbsp: "JSON_parse (160 # str ''[1]'') = None"
  by (simp add: json_defs)

lemma strip_unclosed_response: "stripMarkdown unclosed_response = unclosed_response"
  by (simp add: unclosed_response_def text_defs)


text \<open>
  The four cases on texts: \<open>[1]\<close> parses strictly; \<open>{"a":{"b":1}\<close> holds a brace pair
  and is parsed strictly only; \<open>{"a":1\<close> is closed with one brace; and \<open>[1]\<close> behind a
  no-break space, which is no white space of JSON, is parsed trimmed.
\<close>

theorem recovery_repairs_only_unclosed_text_witness:
  "JSON_parse (str ''[1]'') = Some (JArray [JNumber (Num 1)])
   \<and> tryParsePartialJSON (str ''[1]'') = Some (JArray [JNumber (Num 1)])
   \<and> indexOf unclosed_response 123 \<noteq> -1
   \<and> indexOf unclosed_response 123 < lastIndexOf unclosed_response 125
   \<and> tryParsePartialJSON (stripMarkdown unclosed_response)
       = JSON_parse (stripMarkdown unclosed_response)
   \<and> JSON_parse unclosed_member = None
   \<and> indexOf (trim unclosed_member) 123 = int 0
   \<and> lastIndexOf (trim unclosed_member) 125 < int 0
   \<and> tryParsePartialJSON unclosed_member = Some (JObject [(str ''a'', JNumber (Num 1))])
   \<and> JSON_parse (160 # str ''[1]'') = None
   \<and> indexOf (trim (160 # str ''[1]'')) 123 = -1
   \<and> tryParsePartialJSON (160 # str ''[1]'') = Some (JArray [JNumber (Num 1)])"
proof -
  note t = recovery_repairs_only_unclosed_text [where parse = JSON_parse]
  have a: "tryParsePartialJSON (str ''[1]'') = Some (JArray [JNumber (Num 1)])"
    using t [of "str ''[1]''" "JArray [JNumber (Num 1)]"] parse_bracket_one
    by (simp add: tryParsePartialJSON_def)
  have b1: "indexOf unclosed_response 123 \<noteq> -1
      \<and> indexOf unclosed_response 123 < lastIndexOf unclosed_response 125"
    by (simp add: unclosed_response_def str_simps)
  have b: "tryParsePartialJSON (stripMarkdown unclosed_response)
       = JSON_parse (stripMarkdown unclosed_response)"
    using t [of _ _ unclosed_response] b1 by (simp add: tryParsePartialJSON_def)
  have c1: "indexOf (trim unclosed_member) 123 = int 0"
    "lastIndexOf (trim unclosed_member) 125 < int 0"
    by (simp_all add: unclosed_member_def text_defs)
  have c2: "drop 0 (trim unclosed_member)
      @ replicate (nat (count_unit 123 (drop 0 (trim unclosed_member)))) 125
      = unclosed_member @ [125]"
    by (simp add: unclosed_member_def text_defs)
  have "tryParsePartialJSON_with JSON_parse unclosed_member
      = JSON_parse (drop 0 (trim unclosed_member)
          @ replicate (nat (count_unit 123 (drop 0 (trim unclosed_member)))) 125)"
    using t [of unclosed_member _ _ 0] parse_unclosed_member c1 by blast
  then have c: "tryParsePartialJSON unclosed_member
      = Some (JObject [(str ''a'', JNumber (Num 1))])"
    by (simp only: c2 parse_closed_member tryParsePartialJSON_def)
  have d1: "indexOf (trim (160 # str ''[1]'')) 123 = -1"
    "trim (160 # str ''[1]'') = str ''[1]''"
    by (simp_all add: text_defs)
  have "tryParsePartialJSON_with JSON_parse (160 # str ''[1]'')
      = (case JSON_parse (trim (160 # str ''[1]'')) of
           Some w \<Rightarrow> Some w
         | None \<Rightarrow>
             if 0 < lastIndexOf (trim (160 # str ''[1]'')) 125
             then JSON_parse (take (nat (lastIndexOf (trim (160 # str ''[1]'')) 125) + 1)
                                (trim (160 # str ''[1]'')))
             else None)"
    using t [of "160 # str ''[1]''"] parse_nbsp d1(1) by blast
  then have d: "tryParsePartialJSON (160 # str ''[1]'') = Some (JArray [JNumber (Num 1)])"
    by (simp only: d1(2) parse_bracket_one tryParsePartialJSON_def option.case)
  from a b1 b c1 c d1(1) d parse_bracket_one parse_unclosed_member parse_nbsp
  show ?thesis by (simp only: simp_thms)
qed

text \<open>
  The response \<open>{"a":{"b":1}\<close> is cut short after the closing brace of its inner
  object. The stripping step returns it whole and strict parsing fails; the excess
  of opening braces is 1 and the text closed with one brace parses, which is what
  the recovery of the specification returns; but the recovery parser appends
  nothing to a text that ends with a closing brace, and the failure propagates.
\<close>

theorem repair_skipped_counterexample:
  "stripMarkdown unclosed_response = unclosed_response
   \<and> JSON_parse (stripMarkdown unclosed_response) = None
   \<and> count_unit 123 unclosed_response - count_unit 125 unclosed_response = 1
   \<and> JSON_parse (unclosed_response @ replicate 1 125)
       = Some (JObject [(str ''a'', JObject [(str ''b'', JNumber (Num 1))])])
   \<and> spec_recover JSON_parse unclosed_response
       = Some (JObject [(str ''a'', JObject [(str ''b'', JNumber (Num 1))])])
   \<and> recovered_text (stripMarkdown unclosed_response) = unclosed_response
   \<and> tryParsePartialJSON (stripMarkdown unclosed_response) = None"
proof -
  have a: "stripMarkdown unclosed_response = unclosed_response"
    by (rule strip_unclosed_response)
  have c: "count_unit 123 unclosed_response - count_unit 125 unclosed_response = 1"
    by (simp add: unclosed_response_def text_defs)
  have r: "recovered_text unclosed_response = unclosed_response"
    by (simp add: unclosed_response_def text_defs)
  have l: "lastIndexOf unclosed_response 125 = 11" "length unclosed_response = 12"
    by (simp_all add: unclosed_response_def text_defs)
  have t: "tryParsePartialJSON unclosed_response = None"
    by (simp add: tryParsePartialJSON_def tryParsePartialJSON_with_def parse_unclosed_response
        r l substring_def)
  have s: "spec_recover JSON_parse unclosed_response
       = Some (JObject [(str ''a'', JObject [(str ''b'', JNumber (Num 1))])])"
    by (simp add: spec_recover_def a c parse_unclosed_response parse_closed_response)
  from a c r t s parse_unclosed_response parse_closed_response show ?thesis by simp
qed

end
